theory Spec2Isabelle
  imports Main "HOL-Library.Word"
begin

section \<open>AsyncScheduler: core/async\_scheduler.h, core/async\_scheduler.cpp\<close>

text \<open>
  The namespace \<open>ai_scheduler\<close> declares its own \<open>TaskType\<close>; the enumeration
  \<open>TaskPriority\<close> has the same three enumerators in both schedulers and is shared here.
\<close>

datatype Async_TaskType = LLM_GPU | TTS_CPU | IMAGE_GPU_QUEUE

datatype TaskPriority = HIGH | MEDIUM | LOW

text \<open>
  \<open>ai_scheduler::Task\<close>: the members \<open>type_\<close>, \<open>priority_\<close> and \<open>id_\<close> (a
  \<open>uint64_t\<close>), here \<open>a_type\<close>, \<open>a_priority\<close> and \<open>a_id\<close> (a name cannot end in
  an underscore, so members lose theirs). The callback is not data the scheduler reads;
  calls of \<open>notifyComplete\<close> are recorded in the scheduler state below.
\<close>

record Async_Task =
  a_type :: Async_TaskType
  a_priority :: TaskPriority
  a_id :: "64 word"

text \<open>
  \<open>Task::Task\<close>: \<open>id_(next_id_++)\<close> on the static \<open>std::atomic<uint64_t> next_id_\<close>,
  which is initialised to 0. The counter is passed in and returned.
\<close>

definition next_id_init :: "64 word" where
  "next_id_init = 0"

definition Task_ctor :: "64 word \<Rightarrow> Async_TaskType \<Rightarrow> TaskPriority \<Rightarrow> Async_Task \<times> 64 word" where
  "Task_ctor next_id ty pr = (\<lparr>a_type = ty, a_priority = pr, a_id = next_id\<rparr>, next_id + 1)"

text \<open>
  What a call of a virtual method the scheduler does not implement (\<open>Task::execute\<close>,
  \<open>IWorker::processTask\<close>, \<open>IWorker::initialize\<close>) may do to control flow: return, throw
  an exception derived from \<open>std::exception\<close> with the given \<open>what()\<close>, or throw
  anything else. The handlers in both schedulers are \<open>catch (const std::exception&)\<close>
  only, so the third outcome leaves the thread function.
\<close>

datatype outcome = Returns | Throws_std string | Throws_other

datatype error = Uncaught_exception

text \<open>
  The members of \<open>AsyncScheduler\<close> guarded by \<open>task_mutex_\<close>, the flag \<open>running_\<close>,
  and two logs of the calls made on tasks: \<open>execute_log\<close> lists the ids on which
  \<open>execute()\<close> was called, \<open>notify_log\<close> the calls of \<open>notifyComplete\<close>.
\<close>

record AsyncScheduler =
  a_tasks :: "64 word \<rightharpoonup> Async_Task"
  llm_queue :: "Async_Task list"
  tts_queue :: "Async_Task list"
  image_queue :: "Async_Task list"
  a_running :: bool
  execute_log :: "64 word list"
  notify_log :: "(64 word \<times> bool \<times> string) list"

definition AsyncScheduler_ctor :: AsyncScheduler where
  "AsyncScheduler_ctor =
     \<lparr>a_tasks = Map.empty, llm_queue = [], tts_queue = [], image_queue = [],
      a_running = False, execute_log = [], notify_log = []\<rparr>"

text \<open>\<open>AsyncScheduler::submitTask\<close>; a null \<open>shared_ptr\<close> is \<open>None\<close>.\<close>

definition Async_submitTask :: "AsyncScheduler \<Rightarrow> Async_Task option \<Rightarrow> 64 word \<times> AsyncScheduler" where
  "Async_submitTask s task =
     (case task of
        None \<Rightarrow> (0, s)
      | Some t \<Rightarrow>
          (let s1 = s\<lparr>a_tasks := (a_tasks s)(a_id t \<mapsto> t)\<rparr>
           in (a_id t,
               (case a_type t of
                  LLM_GPU \<Rightarrow> s1\<lparr>llm_queue := llm_queue s1 @ [t]\<rparr>
                | TTS_CPU \<Rightarrow> s1\<lparr>tts_queue := tts_queue s1 @ [t]\<rparr>
                | IMAGE_GPU_QUEUE \<Rightarrow> s1\<lparr>image_queue := image_queue s1 @ [t]\<rparr>))))"

text \<open>
  \<open>AsyncScheduler::cancelTask\<close>: the erase-remove idiom on the queue of the task's type
  keeps the entries whose id differs, then the id leaves \<open>tasks_\<close>.
\<close>

definition Async_cancelTask :: "AsyncScheduler \<Rightarrow> 64 word \<Rightarrow> bool \<times> AsyncScheduler" where
  "Async_cancelTask s task_id =
     (case a_tasks s task_id of
        None \<Rightarrow> (False, s)
      | Some t \<Rightarrow>
          (let keep = filter (\<lambda>q. a_id q \<noteq> task_id);
               s1 = (case a_type t of
                       LLM_GPU \<Rightarrow> s\<lparr>llm_queue := keep (llm_queue s)\<rparr>
                     | TTS_CPU \<Rightarrow> s\<lparr>tts_queue := keep (tts_queue s)\<rparr>
                     | IMAGE_GPU_QUEUE \<Rightarrow> s\<lparr>image_queue := keep (image_queue s)\<rparr>)
           in (True, s1\<lparr>a_tasks := (a_tasks s1)(task_id := None)\<rparr>)))"

text \<open>
  \<open>std::find_if\<close> as the position of the first match (\<open>None\<close> is \<open>end()\<close>), and
  \<open>vector::erase\<close> at a position.
\<close>

fun find_if :: "('a \<Rightarrow> bool) \<Rightarrow> 'a list \<Rightarrow> nat option" where
  "find_if P [] = None"
| "find_if P (x # xs) = (if P x then Some 0 else map_option Suc (find_if P xs))"

definition erase :: "nat \<Rightarrow> 'a list \<Rightarrow> 'a list" where
  "erase i xs = take i xs @ drop (Suc i) xs"

text \<open>
  The choice made under the lock in \<open>AsyncScheduler::workerThreadFunction\<close>: the first
  task of priority \<open>HIGH\<close> if there is one, the front of the queue otherwise.
\<close>

definition take_task :: "Async_Task list \<Rightarrow> (Async_Task \<times> Async_Task list) option" where
  "take_task q =
     (if q = [] then None
      else (case find_if (\<lambda>t. a_priority t = HIGH) q of
              Some i \<Rightarrow> Some (q ! i, erase i q)
            | None \<Rightarrow> Some (hd q, erase 0 q)))"

text \<open>
  One pass of the loop body of \<open>workerThreadFunction\<close>, in its two parts: the block that
  holds \<open>task_mutex_\<close> and picks a task from the queue of the worker's type, and the
  execution of that task outside the lock. \<open>tasks_\<close> is not touched by the first part.
\<close>

definition worker_dequeue :: "Async_TaskType \<Rightarrow> AsyncScheduler \<Rightarrow> Async_Task option \<times> AsyncScheduler" where
  "worker_dequeue worker_type s =
     (case worker_type of
        LLM_GPU \<Rightarrow>
          (case take_task (llm_queue s) of
             None \<Rightarrow> (None, s) | Some (t, q) \<Rightarrow> (Some t, s\<lparr>llm_queue := q\<rparr>))
      | TTS_CPU \<Rightarrow>
          (case take_task (tts_queue s) of
             None \<Rightarrow> (None, s) | Some (t, q) \<Rightarrow> (Some t, s\<lparr>tts_queue := q\<rparr>))
      | IMAGE_GPU_QUEUE \<Rightarrow>
          (case take_task (image_queue s) of
             None \<Rightarrow> (None, s) | Some (t, q) \<Rightarrow> (Some t, s\<lparr>image_queue := q\<rparr>)))"

definition worker_execute :: "Async_Task \<Rightarrow> outcome \<Rightarrow> AsyncScheduler \<Rightarrow> error + AsyncScheduler" where
  "worker_execute t out s =
     (let s1 = s\<lparr>execute_log := execute_log s @ [a_id t]\<rparr>
      in (case out of
            Returns \<Rightarrow> Inr (s1\<lparr>a_tasks := (a_tasks s1)(a_id t := None)\<rparr>)
          | Throws_std msg \<Rightarrow>
              Inr (s1\<lparr>notify_log := notify_log s1 @ [(a_id t, False, ''Exception: '' @ msg)],
                       a_tasks := (a_tasks s1)(a_id t := None)\<rparr>)
          | Throws_other \<Rightarrow> Inl Uncaught_exception))"

text \<open>
  \<open>AsyncScheduler::stop\<close>, after the worker threads have been joined.
\<close>

definition Async_stop :: "AsyncScheduler \<Rightarrow> AsyncScheduler" where
  "Async_stop s =
     (if \<not> a_running s then s
      else s\<lparr>a_running := False, a_tasks := Map.empty,
             llm_queue := [], tts_queue := [], image_queue := []\<rparr>)"


lemma find_if_less: "find_if P xs = Some i \<Longrightarrow> i < length xs"
  by (induction xs arbitrary: i) (auto split: if_splits)

lemma take_task_shorter: "take_task q = Some (t, q') \<Longrightarrow> length q' < length q"
  by (auto simp: take_task_def erase_def split: if_splits option.splits dest: find_if_less)

text \<open>
  The order in which a single worker thread starts the tasks of a queue to which nothing
  is submitted meanwhile: \<open>take_task\<close> until the queue is empty.
\<close>

function start_order :: "Async_Task list \<Rightarrow> Async_Task list" where
  "start_order q = (case take_task q of None \<Rightarrow> [] | Some (t, q') \<Rightarrow> t # start_order q')"
  by pat_completeness auto
termination
  by (relation "measure length") (auto dest: take_task_shorter)

declare start_order.simps [simp del]

text \<open>
  \<open>AsyncScheduler::start\<close>, as far as the members above go: \<open>running_\<close> is set (the
  threads it creates are the passes below).
\<close>

definition Async_start :: "AsyncScheduler \<Rightarrow> AsyncScheduler" where
  "Async_start s = (if a_running s then s else s\<lparr>a_running := True\<rparr>)"

text \<open>
  What can happen to an \<open>AsyncScheduler\<close>: a call of a public member function, or a
  worker thread doing one half of a pass of its loop, where any task may be the one it
  holds. \<open>Async_step_without i\<close> is such a step other than the submission of a task
  whose id is \<open>i\<close>.
\<close>

inductive Async_step :: "AsyncScheduler \<Rightarrow> AsyncScheduler \<Rightarrow> bool" where
  Async_step_start: "Async_step s (Async_start s)"
| Async_step_stop: "Async_step s (Async_stop s)"
| Async_step_submitTask: "Async_step s (snd (Async_submitTask s task))"
| Async_step_cancelTask: "Async_step s (snd (Async_cancelTask s task_id))"
| Async_step_dequeue: "a_running s \<Longrightarrow> worker_dequeue worker_type s = (r, s') \<Longrightarrow> Async_step s s'"
| Async_step_execute: "worker_execute t out s = Inr s' \<Longrightarrow> Async_step s s'"

definition Async_submits_id :: "64 word \<Rightarrow> AsyncScheduler \<Rightarrow> AsyncScheduler \<Rightarrow> bool" where
  "Async_submits_id i s s' \<longleftrightarrow> (\<exists>t. a_id t = i \<and> s' = snd (Async_submitTask s (Some t)))"

definition Async_step_without :: "64 word \<Rightarrow> AsyncScheduler \<Rightarrow> AsyncScheduler \<Rightarrow> bool" where
  "Async_step_without i s s' \<longleftrightarrow> Async_step s s' \<and> \<not> Async_submits_id i s s'"

section \<open>ResourceIsolationScheduler: core/resource\_isolation\_scheduler.h and .cpp\<close>

datatype TaskType = LLM_INFERENCE | TTS_SYNTHESIS | IMAGE_GENERATION

datatype TaskStatus = PENDING | RUNNING | COMPLETED | FAILED | CANCELLED

text \<open>
  \<open>std::to_string\<close> of a \<open>long long\<close>: the decimal digits, with a minus sign for a
  negative number.
\<close>

function to_string_nat :: "nat \<Rightarrow> string" where
  "to_string_nat n =
     (if n < 10 then [''0123456789'' ! n]
      else to_string_nat (n div 10) @ [''0123456789'' ! (n mod 10)])"
  by pat_completeness auto
termination
  by (relation "measure id") auto

declare to_string_nat.simps [simp del]

definition to_string :: "int \<Rightarrow> string" where
  "to_string i = (if i < 0 then CHR ''-'' # to_string_nat (nat (- i)) else to_string_nat (nat i))"

text \<open>
  An object of class \<open>Task<ResultType>\<close> seen through \<open>ITask\<close>: the members
  \<open>type_\<close>, \<open>priority_\<close>, \<open>status_\<close> and \<open>taskId_\<close> under the names of their getters,
  and \<open>exception_\<close> as the message of the stored exception (\<open>None\<close> is the null
  \<open>exception_ptr\<close>). The bound function and its result are read by no member function
  of the scheduler.
\<close>

record ITask =
  getType :: TaskType
  getPriority :: TaskPriority
  getStatus :: TaskStatus
  getTaskId :: string
  exception_ptr :: "string option"

text \<open>
  The constructor of \<open>Task<ResultType>\<close>. The id is \<open>"task_"\<close> followed by the reading
  of \<open>std::chrono::system_clock\<close> at construction, which is the argument \<open>now\<close>.
\<close>

definition Task_new :: "int \<Rightarrow> TaskType \<Rightarrow> TaskPriority \<Rightarrow> ITask" where
  "Task_new now ty pr =
     \<lparr>getType = ty, getPriority = pr, getStatus = PENDING,
      getTaskId = ''task_'' @ to_string now, exception_ptr = None\<rparr>"

text \<open>
  A worker behind \<open>IWorker\<close>. The interface is abstract: what \<open>initialize\<close> and
  \<open>processTask\<close> do is a parameter of the worker. \<open>processTask\<close> gets the task object and
  leaves it in some state, returning or throwing; the answer of \<open>canHandle\<close> is a fixed
  attribute of the worker, \<open>isBusy\<close> is a flag the worker may change at any time.
\<close>

record IWorker =
  getWorkerId :: string
  canHandle :: "TaskType \<Rightarrow> bool"
  isBusy :: bool
  worker_initialize :: outcome
  processTask :: "ITask \<Rightarrow> ITask \<times> outcome"

text \<open>
  The calls the scheduler makes on task and worker objects that can change them, in
  order. A task or a worker is named by its address.
\<close>

datatype call =
    Call_setStatus nat TaskStatus
  | Call_processTask nat nat
  | Call_initialize nat
  | Call_shutdown nat

text \<open>
  The scheduler. Tasks and workers are held through \<open>shared_ptr\<close>, and one task object
  is reachable from \<open>tasks_\<close> and from a queue at once, so the objects live in two
  stores indexed by address; \<open>next_task\<close> is the address \<open>make_shared\<close> hands out next.
  The counters are \<open>size_t\<close>; \<open>workerThreads\<close> is the length of \<open>workerThreads_\<close>.
\<close>

record ResourceIsolationScheduler =
  task_store :: "nat \<Rightarrow> ITask"
  next_task :: nat
  worker_store :: "nat \<Rightarrow> IWorker"
  workers :: "nat list"
  gpuWorkers :: "nat list"
  cpuWorkers :: "nat list"
  llmWorker :: "nat option"
  llmTaskQueue :: "nat list"
  ttsTaskQueue :: "nat list"
  imageTaskQueue :: "nat list"
  tasks :: "string \<rightharpoonup> nat"
  running :: bool
  initialized :: bool
  totalTasks :: nat
  completedTasks :: nat
  failedTasks :: nat
  workerThreads :: nat
  calls :: "call list"

definition ResourceIsolationScheduler_ctor ::
    "(nat \<Rightarrow> ITask) \<Rightarrow> (nat \<Rightarrow> IWorker) \<Rightarrow> ResourceIsolationScheduler" where
  "ResourceIsolationScheduler_ctor ts ws =
     \<lparr>task_store = ts, next_task = 0, worker_store = ws,
      workers = [], gpuWorkers = [], cpuWorkers = [], llmWorker = None,
      llmTaskQueue = [], ttsTaskQueue = [], imageTaskQueue = [], tasks = Map.empty,
      running = False, initialized = False,
      totalTasks = 0, completedTasks = 0, failedTasks = 0, workerThreads = 0, calls = []\<rparr>"

definition initialize :: "ResourceIsolationScheduler \<Rightarrow> nat \<Rightarrow> bool \<times> ResourceIsolationScheduler" where
  "initialize s cpuThreadCount =
     (if initialized s then (True, s)
      else (True, s\<lparr>running := True, workerThreads := workerThreads s + cpuThreadCount,
                    initialized := True\<rparr>))"

text \<open>\<open>shutdown\<close>, once the threads of the scheduler have been joined.\<close>

definition shutdown :: "ResourceIsolationScheduler \<Rightarrow> ResourceIsolationScheduler" where
  "shutdown s =
     (if \<not> initialized s then s
      else s\<lparr>running := False,
             calls := calls s @ map Call_shutdown (workers s),
             workers := [], gpuWorkers := [], cpuWorkers := [], llmWorker := None,
             llmTaskQueue := [], ttsTaskQueue := [], tasks := Map.empty,
             imageTaskQueue := [], initialized := False\<rparr>)"

definition addWorker ::
    "ResourceIsolationScheduler \<Rightarrow> nat option \<Rightarrow> error + bool \<times> ResourceIsolationScheduler" where
  "addWorker s worker =
     (case worker of
        None \<Rightarrow> Inr (False, s)
      | Some w \<Rightarrow>
          (let s0 = s\<lparr>calls := calls s @ [Call_initialize w]\<rparr>; W = worker_store s w
           in (case worker_initialize W of
                 Throws_std msg \<Rightarrow> Inr (False, s0)
               | Throws_other \<Rightarrow> Inl Uncaught_exception
               | Returns \<Rightarrow>
                   (let s1 = s0\<lparr>workers := workers s0 @ [w]\<rparr>
                    in Inr (True,
                         if canHandle W LLM_INFERENCE \<or> canHandle W IMAGE_GENERATION then
                           (let s2 = s1\<lparr>gpuWorkers := gpuWorkers s1 @ [w]\<rparr>
                            in if canHandle W LLM_INFERENCE \<and> llmWorker s2 = None
                               then s2\<lparr>llmWorker := Some w\<rparr> else s2)
                         else if canHandle W TTS_SYNTHESIS then
                           s1\<lparr>cpuWorkers := cpuWorkers s1 @ [w]\<rparr>
                         else s1)))))"

text \<open>
  \<open>submitTask\<close>: the task is constructed at clock reading \<open>now\<close> and allocated at
  \<open>next_task\<close>; the address is returned in place of the future.
\<close>

definition submitTask ::
    "ResourceIsolationScheduler \<Rightarrow> int \<Rightarrow> TaskType \<Rightarrow> TaskPriority \<Rightarrow> nat \<times> ResourceIsolationScheduler" where
  "submitTask s now ty pr =
     (let p = next_task s; t = Task_new now ty pr;
          s1 = s\<lparr>task_store := (task_store s)(p := t), next_task := Suc p,
                 tasks := (tasks s)(getTaskId t \<mapsto> p), totalTasks := totalTasks s + 1\<rparr>
      in (p,
          (case ty of
             LLM_INFERENCE \<Rightarrow> s1\<lparr>llmTaskQueue := llmTaskQueue s1 @ [p]\<rparr>
           | TTS_SYNTHESIS \<Rightarrow> s1\<lparr>ttsTaskQueue := ttsTaskQueue s1 @ [p]\<rparr>
           | IMAGE_GENERATION \<Rightarrow> s1\<lparr>imageTaskQueue := imageTaskQueue s1 @ [p]\<rparr>)))"

text \<open>\<open>task->setStatus(st)\<close> on the task at address \<open>p\<close>.\<close>

definition setStatus :: "nat \<Rightarrow> TaskStatus \<Rightarrow> ResourceIsolationScheduler \<Rightarrow> ResourceIsolationScheduler" where
  "setStatus p st s =
     s\<lparr>task_store := (task_store s)(p := (task_store s p)\<lparr>getStatus := st\<rparr>),
       calls := calls s @ [Call_setStatus p st]\<rparr>"

definition cancelTask :: "ResourceIsolationScheduler \<Rightarrow> string \<Rightarrow> bool \<times> ResourceIsolationScheduler" where
  "cancelTask s taskId =
     (case tasks s taskId of
        None \<Rightarrow> (False, s)
      | Some p \<Rightarrow>
          if getStatus (task_store s p) = PENDING then
            (let s1 = setStatus p CANCELLED s
             in (True, s1\<lparr>tasks := (tasks s1)(taskId := None)\<rparr>))
          else (False, s))"

definition getTaskStatus :: "ResourceIsolationScheduler \<Rightarrow> string \<Rightarrow> TaskStatus" where
  "getTaskStatus s taskId =
     (case tasks s taskId of
        Some p \<Rightarrow> getStatus (task_store s p)
      | None \<Rightarrow> CANCELLED)"

text \<open>
  \<open>selectWorker\<close>. The comparison \<open>worker != llmWorker_\<close> is one of addresses, and holds
  for every worker when \<open>llmWorker_\<close> is null.
\<close>

definition idle_worker :: "ResourceIsolationScheduler \<Rightarrow> TaskType \<Rightarrow> nat \<Rightarrow> bool" where
  "idle_worker s ty w = (canHandle (worker_store s w) ty \<and> \<not> isBusy (worker_store s w))"

definition selectWorker :: "ResourceIsolationScheduler \<Rightarrow> TaskType \<Rightarrow> nat option" where
  "selectWorker s ty =
     (let others =
            (if ty = TTS_SYNTHESIS then find (idle_worker s ty) (cpuWorkers s)
             else find (\<lambda>w. Some w \<noteq> llmWorker s \<and> idle_worker s ty w) (gpuWorkers s))
      in (case llmWorker s of
            None \<Rightarrow> others
          | Some l \<Rightarrow>
              if ty = LLM_INFERENCE \<and> \<not> isBusy (worker_store s l) then Some l else others))"

text \<open>
  The \<open>try\<close> block around \<open>worker->processTask(task)\<close>, the same in both dispatch
  functions: the statistics after a return, \<open>setStatus(FAILED)\<close> in the handler for
  \<open>std::exception\<close>, which prints the message and keeps nothing of it.
\<close>

definition run_worker :: "ResourceIsolationScheduler \<Rightarrow> nat \<Rightarrow> nat \<Rightarrow> error + ResourceIsolationScheduler" where
  "run_worker s w p =
     (let r = processTask (worker_store s w) (task_store s p);
          s1 = s\<lparr>task_store := (task_store s)(p := fst r),
                 calls := calls s @ [Call_processTask w p]\<rparr>
      in (case snd r of
            Returns \<Rightarrow>
              Inr (if getStatus (task_store s1 p) = COMPLETED
                   then s1\<lparr>completedTasks := completedTasks s1 + 1\<rparr>
                   else if getStatus (task_store s1 p) = FAILED
                   then s1\<lparr>failedTasks := failedTasks s1 + 1\<rparr>
                   else s1)
          | Throws_std msg \<Rightarrow>
              (let s2 = setStatus p FAILED s1
               in Inr (s2\<lparr>failedTasks := failedTasks s2 + 1\<rparr>))
          | Throws_other \<Rightarrow> Inl Uncaught_exception))"

text \<open>The last block of both dispatch functions: a finished task leaves \<open>tasks_\<close>.\<close>

definition erase_finished :: "ResourceIsolationScheduler \<Rightarrow> nat \<Rightarrow> ResourceIsolationScheduler" where
  "erase_finished s p =
     (if getStatus (task_store s p) = COMPLETED \<or> getStatus (task_store s p) = FAILED
         \<or> getStatus (task_store s p) = CANCELLED
      then s\<lparr>tasks := (tasks s)(getTaskId (task_store s p) := None)\<rparr>
      else s)"

text \<open>
  The first block of \<open>processTaskQueues\<close>, under \<open>queueMutex_\<close>: the front of the LLM
  queue, else the front of the TTS queue, is popped; a cancelled task leaves \<open>tasks_\<close>
  and the pass is over, any other task is kept in the local variables of the thread.
\<close>

definition front_task ::
    "ResourceIsolationScheduler \<Rightarrow> (nat \<times> TaskType \<times> ResourceIsolationScheduler) option" where
  "front_task s =
     (if llmTaskQueue s \<noteq> [] then
        Some (hd (llmTaskQueue s), LLM_INFERENCE, s\<lparr>llmTaskQueue := tl (llmTaskQueue s)\<rparr>)
      else if ttsTaskQueue s \<noteq> [] then
        Some (hd (ttsTaskQueue s), TTS_SYNTHESIS, s\<lparr>ttsTaskQueue := tl (ttsTaskQueue s)\<rparr>)
      else None)"

definition processTaskQueues_take ::
    "ResourceIsolationScheduler \<Rightarrow> (nat \<times> TaskType) option \<times> ResourceIsolationScheduler" where
  "processTaskQueues_take s =
     (case front_task s of
        None \<Rightarrow> (None, s)
      | Some (p, taskType, s1) \<Rightarrow>
          if getStatus (task_store s1 p) = CANCELLED then
            (None, s1\<lparr>tasks := (tasks s1)(getTaskId (task_store s1 p) := None)\<rparr>)
          else (Some (p, taskType), s1))"

text \<open>
  The rest of \<open>processTaskQueues\<close>, outside that block: a worker is selected and runs
  the task, or the task goes back to the end of its queue.
\<close>

definition processTaskQueues_serve ::
    "ResourceIsolationScheduler \<Rightarrow> nat \<Rightarrow> TaskType \<Rightarrow> error + ResourceIsolationScheduler" where
  "processTaskQueues_serve s p taskType =
     (case selectWorker s taskType of
        Some w \<Rightarrow>
          (case run_worker s w p of
             Inl e \<Rightarrow> Inl e
           | Inr s2 \<Rightarrow> Inr (erase_finished s2 p))
      | None \<Rightarrow>
          Inr (erase_finished
                 (case taskType of
                    LLM_INFERENCE \<Rightarrow> s\<lparr>llmTaskQueue := llmTaskQueue s @ [p]\<rparr>
                  | TTS_SYNTHESIS \<Rightarrow> s\<lparr>ttsTaskQueue := ttsTaskQueue s @ [p]\<rparr>
                  | IMAGE_GENERATION \<Rightarrow> s) p))"

text \<open>One pass of \<open>processTaskQueues\<close> with no other thread in between.\<close>

definition processTaskQueues :: "ResourceIsolationScheduler \<Rightarrow> error + ResourceIsolationScheduler" where
  "processTaskQueues s =
     (case processTaskQueues_take s of
        (None, s1) \<Rightarrow> Inr s1
      | (Some (p, taskType), s1) \<Rightarrow> processTaskQueues_serve s1 p taskType)"

text \<open>The worker chosen inside \<open>processImageGenerationQueue\<close>.\<close>

definition image_worker :: "ResourceIsolationScheduler \<Rightarrow> nat option" where
  "image_worker s =
     find (\<lambda>w. Some w \<noteq> llmWorker s \<and> idle_worker s IMAGE_GENERATION w) (gpuWorkers s)"

text \<open>
  \<open>processImageGenerationQueue\<close> after its first block, which pops the front of the
  image queue under \<open>imageQueueMutex_\<close>: the check for cancellation, the choice of the
  worker and the call of the worker all happen under \<open>queueMutex_\<close>.
\<close>

definition processImageGenerationQueue_serve ::
    "ResourceIsolationScheduler \<Rightarrow> nat \<Rightarrow> error + ResourceIsolationScheduler" where
  "processImageGenerationQueue_serve s p =
     (if tasks s (getTaskId (task_store s p)) = None \<or> getStatus (task_store s p) = CANCELLED
      then Inr s
      else
        (case image_worker s of
           Some w \<Rightarrow>
             (case run_worker s w p of
                Inl e \<Rightarrow> Inl e
              | Inr s2 \<Rightarrow> Inr (erase_finished s2 p))
         | None \<Rightarrow>
             Inr (erase_finished (s\<lparr>imageTaskQueue := imageTaskQueue s @ [p]\<rparr>) p)))"

text \<open>One pass of \<open>processImageGenerationQueue\<close> with no other thread in between.\<close>

definition processImageGenerationQueue :: "ResourceIsolationScheduler \<Rightarrow> error + ResourceIsolationScheduler" where
  "processImageGenerationQueue s =
     (case imageTaskQueue s of
        [] \<Rightarrow> Inr s
      | p # q \<Rightarrow> processImageGenerationQueue_serve (s\<lparr>imageTaskQueue := q\<rparr>) p)"

section \<open>The scheduler and its threads\<close>

text \<open>
  What a caller or a worker can do to the scheduler in one go: a call of a public
  member function (each holds \<open>queueMutex_\<close> for its whole effect; \<open>shutdown\<close> may come at
  any time, which allows more than the code does), or a worker changing its busy flag.
\<close>

inductive call_step :: "ResourceIsolationScheduler \<Rightarrow> ResourceIsolationScheduler \<Rightarrow> bool" where
  call_initialize: "call_step s (snd (initialize s cpuThreadCount))"
| call_shutdown: "call_step s (shutdown s)"
| call_addWorker: "addWorker s worker = Inr (ok, s') \<Longrightarrow> call_step s s'"
| call_submitTask: "call_step s (snd (submitTask s now ty pr))"
| call_cancelTask: "call_step s (snd (cancelTask s taskId))"
| call_busy:
    "call_step s (s\<lparr>worker_store := (worker_store s)(w := (worker_store s w)\<lparr>isBusy := b\<rparr>)\<rparr>)"

text \<open>
  The scheduler together with the local variables of its dispatch threads: \<open>taken\<close>
  holds the task and type of every thread that has left the first block of
  \<open>processTaskQueues\<close> with a task and not finished the pass, \<open>image_taken\<close> the task of
  the image thread after its first block. Other threads run between the two halves
  of a pass. A pass that ends in an uncaught exception ends the program.
\<close>

record system =
  scheduler :: ResourceIsolationScheduler
  taken :: "(nat \<times> TaskType) list"
  image_taken :: "nat list"

inductive step :: "system \<Rightarrow> system \<Rightarrow> bool" where
  step_call: "call_step (scheduler \<sigma>) s' \<Longrightarrow> step \<sigma> (\<sigma>\<lparr>scheduler := s'\<rparr>)"
| step_take_none:
    "running (scheduler \<sigma>) \<Longrightarrow> processTaskQueues_take (scheduler \<sigma>) = (None, s') \<Longrightarrow>
     step \<sigma> (\<sigma>\<lparr>scheduler := s'\<rparr>)"
| step_take:
    "running (scheduler \<sigma>) \<Longrightarrow> processTaskQueues_take (scheduler \<sigma>) = (Some (p, ty), s') \<Longrightarrow>
     step \<sigma> (\<sigma>\<lparr>scheduler := s', taken := (p, ty) # taken \<sigma>\<rparr>)"
| step_serve:
    "(p, ty) \<in> set (taken \<sigma>) \<Longrightarrow> processTaskQueues_serve (scheduler \<sigma>) p ty = Inr s' \<Longrightarrow>
     step \<sigma> (\<sigma>\<lparr>scheduler := s', taken := remove1 (p, ty) (taken \<sigma>)\<rparr>)"
| step_image_take:
    "running (scheduler \<sigma>) \<Longrightarrow> imageTaskQueue (scheduler \<sigma>) = p # q \<Longrightarrow>
     step \<sigma> (\<sigma>\<lparr>scheduler := (scheduler \<sigma>)\<lparr>imageTaskQueue := q\<rparr>,
                image_taken := p # image_taken \<sigma>\<rparr>)"
| step_image_serve:
    "p \<in> set (image_taken \<sigma>) \<Longrightarrow> processImageGenerationQueue_serve (scheduler \<sigma>) p = Inr s' \<Longrightarrow>
     step \<sigma> (\<sigma>\<lparr>scheduler := s', image_taken := remove1 p (image_taken \<sigma>)\<rparr>)"

inductive reachable :: "system \<Rightarrow> bool" where
  reachable_ctor:
    "reachable \<lparr>scheduler = ResourceIsolationScheduler_ctor ts ws, taken = [], image_taken = []\<rparr>"
| reachable_step: "reachable \<sigma> \<Longrightarrow> step \<sigma> \<sigma>' \<Longrightarrow> reachable \<sigma>'"

text \<open>
  \<open>submits_id i\<close> holds of a step that is a call of \<open>submitTask\<close> constructing a task
  whose id is \<open>i\<close>; \<open>step_without i\<close> is any other step.
\<close>

definition submits_id :: "string \<Rightarrow> system \<Rightarrow> system \<Rightarrow> bool" where
  "submits_id i \<sigma> \<sigma>' \<longleftrightarrow>
     (\<exists>now ty pr. getTaskId (Task_new now ty pr) = i
        \<and> \<sigma>' = \<sigma>\<lparr>scheduler := snd (submitTask (scheduler \<sigma>) now ty pr)\<rparr>)"

definition step_without :: "string \<Rightarrow> system \<Rightarrow> system \<Rightarrow> bool" where
  "step_without i \<sigma> \<sigma>' \<longleftrightarrow> step \<sigma> \<sigma>' \<and> \<not> submits_id i \<sigma> \<sigma>'"

section \<open>Scenarios\<close>

text \<open>
  Scenario S2 on \<open>AsyncScheduler\<close>: the first three tasks of a process, all of type
  \<open>TTS_CPU\<close>, constructed and submitted in the order a, b, c with priorities \<open>LOW\<close>,
  \<open>HIGH\<close>, \<open>MEDIUM\<close>.
\<close>

definition S2_a :: Async_Task where
  "S2_a = \<lparr>a_type = TTS_CPU, a_priority = LOW, a_id = 0\<rparr>"

definition S2_b :: Async_Task where
  "S2_b = \<lparr>a_type = TTS_CPU, a_priority = HIGH, a_id = 1\<rparr>"

definition S2_c :: Async_Task where
  "S2_c = \<lparr>a_type = TTS_CPU, a_priority = MEDIUM, a_id = 2\<rparr>"

definition S2_scheduler :: AsyncScheduler where
  "S2_scheduler =
     snd (Async_submitTask (snd (Async_submitTask (snd (Async_submitTask
       AsyncScheduler_ctor (Some S2_a))) (Some S2_b))) (Some S2_c))"

text \<open>A task store and a worker to start a \<open>ResourceIsolationScheduler\<close> from.\<close>

definition example_tasks :: "nat \<Rightarrow> ITask" where
  "example_tasks p = Task_new 0 TTS_SYNTHESIS MEDIUM"

definition example_worker :: IWorker where
  "example_worker = \<lparr>getWorkerId = ''w'', canHandle = (\<lambda>ty. False), isBusy = False,
       worker_initialize = Returns, processTask = (\<lambda>t. (t, Returns))\<rparr>"

definition two_llm_tasks :: ResourceIsolationScheduler where
  "two_llm_tasks =
     snd (submitTask (snd (submitTask (ResourceIsolationScheduler_ctor example_tasks (\<lambda>w. example_worker))
       1000 LLM_INFERENCE LOW)) 1001 LLM_INFERENCE HIGH)"

definition one_tts_task :: ResourceIsolationScheduler where
  "one_tts_task =
     snd (submitTask (ResourceIsolationScheduler_ctor example_tasks (\<lambda>w. example_worker))
       1000 TTS_SYNTHESIS LOW)"

text \<open>
  One LLM task submitted to an \<open>AsyncScheduler\<close>, and the scheduler after a worker
  thread has taken the task from the queue.
\<close>

definition one_llm_task :: AsyncScheduler where
  "one_llm_task = snd (Async_submitTask AsyncScheduler_ctor
      (Some \<lparr>a_type = LLM_GPU, a_priority = MEDIUM, a_id = 0\<rparr>))"

definition one_llm_task_taken :: AsyncScheduler where
  "one_llm_task_taken = one_llm_task\<lparr>llm_queue := []\<rparr>"

definition fresh_scheduler :: ResourceIsolationScheduler where
  "fresh_scheduler = ResourceIsolationScheduler_ctor example_tasks (\<lambda>w. example_worker)"

definition task_1000 :: string where
  "task_1000 = ''task_'' @ to_string 1000"

text \<open>
  Workers: one for LLM tasks that completes its task, one that hands the task to a
  thread of its own and returns while the task is \<open>RUNNING\<close>, and two whose
  \<open>processTask\<close> throws \<open>std::runtime_error("oom")\<close>.
\<close>

definition llm_worker :: IWorker where
  "llm_worker =
     \<lparr>getWorkerId = ''llm'', canHandle = (\<lambda>ty. ty = LLM_INFERENCE), isBusy = False,
      worker_initialize = Returns,
      processTask = (\<lambda>t. (t\<lparr>getStatus := COMPLETED\<rparr>, Returns))\<rparr>"

definition llm_worker_detached :: IWorker where
  "llm_worker_detached =
     \<lparr>getWorkerId = ''llm'', canHandle = (\<lambda>ty. ty = LLM_INFERENCE), isBusy = False,
      worker_initialize = Returns,
      processTask = (\<lambda>t. (t\<lparr>getStatus := RUNNING\<rparr>, Returns))\<rparr>"

definition llm_worker_oom :: IWorker where
  "llm_worker_oom =
     \<lparr>getWorkerId = ''llm'', canHandle = (\<lambda>ty. ty = LLM_INFERENCE), isBusy = False,
      worker_initialize = Returns,
      processTask = (\<lambda>t. (t, Throws_std ''oom''))\<rparr>"

definition image_worker_oom :: IWorker where
  "image_worker_oom =
     \<lparr>getWorkerId = ''img'', canHandle = (\<lambda>ty. ty = IMAGE_GENERATION), isBusy = False,
      worker_initialize = Returns,
      processTask = (\<lambda>t. (t, Throws_std ''oom''))\<rparr>"

text \<open>
  A scheduler in which the only task, submitted at clock reading 1000, is \<open>RUNNING\<close>:
  initialised with one thread, the detached LLM worker added, the task submitted, one
  pass of \<open>processTaskQueues\<close>.
\<close>

definition llm_task_running :: ResourceIsolationScheduler where
  "llm_task_running =
     projr (processTaskQueues
       (snd (submitTask
         (snd (projr (addWorker
           (snd (initialize (ResourceIsolationScheduler_ctor example_tasks (\<lambda>w. llm_worker_detached)) 1))
           (Some 0))))
         1000 LLM_INFERENCE MEDIUM)))"

text \<open>
  The schedulers of \<open>one_tts_task\<close> and \<open>one_llm_task\<close> after the task has been
  cancelled.
\<close>

definition one_tts_task_cancelled :: ResourceIsolationScheduler where
  "one_tts_task_cancelled = snd (cancelTask one_tts_task (''task_'' @ to_string 1000))"

definition one_llm_task_cancelled :: AsyncScheduler where
  "one_llm_task_cancelled = snd (Async_cancelTask one_llm_task 0)"

text \<open>After that cancellation, a second task, of id 1, is submitted.\<close>

definition one_llm_task_next :: AsyncScheduler where
  "one_llm_task_next =
     snd (Async_submitTask one_llm_task_cancelled
            (Some \<lparr>a_type = LLM_GPU, a_priority = MEDIUM, a_id = 1\<rparr>))"

text \<open>
  An initialised scheduler with one LLM task waiting in its queue, about to be shut
  down.
\<close>

definition queued_at_shutdown :: ResourceIsolationScheduler where
  "queued_at_shutdown =
     snd (submitTask (snd (initialize fresh_scheduler 2)) 1000 LLM_INFERENCE MEDIUM)"

text \<open>
  Two TTS tasks submitted while \<open>system_clock\<close> reads 1000 both times.
\<close>

definition two_tasks_same_clock :: ResourceIsolationScheduler where
  "two_tasks_same_clock =
     snd (submitTask (snd (submitTask fresh_scheduler 1000 TTS_SYNTHESIS MEDIUM))
            1000 TTS_SYNTHESIS MEDIUM)"

text \<open>
  Scenario S6: an LLM task whose worker throws \<open>"oom"\<close>, before and after the pass
  of \<open>processTaskQueues\<close> that runs it; and the same for an image task.
\<close>

definition S6_scheduler :: ResourceIsolationScheduler where
  "S6_scheduler =
     snd (submitTask
       (snd (projr (addWorker
         (snd (initialize (ResourceIsolationScheduler_ctor example_tasks (\<lambda>w. llm_worker_oom)) 1))
         (Some 0))))
       1000 LLM_INFERENCE MEDIUM)"

definition S6_after :: ResourceIsolationScheduler where
  "S6_after =
    \<lparr>task_store = example_tasks(0 := (Task_new 1000 LLM_INFERENCE MEDIUM)\<lparr>getStatus := FAILED\<rparr>),
     next_task = 1, worker_store = (\<lambda>w. llm_worker_oom),
     workers = [0], gpuWorkers = [0], cpuWorkers = [], llmWorker = Some 0,
     llmTaskQueue = [], ttsTaskQueue = [], imageTaskQueue = [],
     tasks = Map.empty,
     running = True, initialized = True,
     totalTasks = 1, completedTasks = 0, failedTasks = 1, workerThreads = 1,
     calls = [Call_initialize 0, Call_processTask 0 0, Call_setStatus 0 FAILED]\<rparr>"

definition image_task_queued :: ResourceIsolationScheduler where
  "image_task_queued =
     snd (submitTask
       (snd (projr (addWorker
         (snd (initialize (ResourceIsolationScheduler_ctor example_tasks (\<lambda>w. image_worker_oom)) 1))
         (Some 0))))
       1000 IMAGE_GENERATION LOW)"

text \<open>
  Scenario S4, the registry: worker 0 can handle LLM and image tasks and is added
  first, so it becomes \<open>llmWorker_\<close>; worker 1 can handle everything; worker 2 only TTS.
  \<open>S4_registry n\<close> is the scheduler after the first \<open>n\<close> of them have been added.
\<close>

definition lm_exclusive_worker :: IWorker where
  "lm_exclusive_worker =
     \<lparr>getWorkerId = ''lm'', canHandle = (\<lambda>ty. ty = LLM_INFERENCE \<or> ty = IMAGE_GENERATION),
      isBusy = False, worker_initialize = Returns,
      processTask = (\<lambda>t. (t\<lparr>getStatus := COMPLETED\<rparr>, Returns))\<rparr>"

definition general_worker :: IWorker where
  "general_worker =
     \<lparr>getWorkerId = ''general'', canHandle = (\<lambda>ty. True),
      isBusy = False, worker_initialize = Returns,
      processTask = (\<lambda>t. (t\<lparr>getStatus := COMPLETED\<rparr>, Returns))\<rparr>"

definition tts_worker :: IWorker where
  "tts_worker =
     \<lparr>getWorkerId = ''tts'', canHandle = (\<lambda>ty. ty = TTS_SYNTHESIS),
      isBusy = False, worker_initialize = Returns,
      processTask = (\<lambda>t. (t\<lparr>getStatus := COMPLETED\<rparr>, Returns))\<rparr>"

definition S4_workers :: "nat \<Rightarrow> IWorker" where
  "S4_workers w = (if w = 0 then lm_exclusive_worker else if w = 1 then general_worker else tts_worker)"

definition S4_registry :: "nat \<Rightarrow> ResourceIsolationScheduler" where
  "S4_registry n =
     \<lparr>task_store = example_tasks, next_task = 0, worker_store = S4_workers,
      workers = take n [0, 1, 2], gpuWorkers = take n [0, 1], cpuWorkers = drop 2 (take n [0, 1, 2]),
      llmWorker = (if n = 0 then None else Some 0),
      llmTaskQueue = [], ttsTaskQueue = [], imageTaskQueue = [], tasks = Map.empty,
      running = False, initialized = False,
      totalTasks = 0, completedTasks = 0, failedTasks = 0, workerThreads = 0,
      calls = map Call_initialize (take n [0, 1, 2])\<rparr>"

text \<open>
  Scenario S5: the scheduler is initialised, an LLM worker is added, an LLM task is
  submitted at clock reading 1000 and cancelled before any dispatch pass; then
  \<open>processTaskQueues\<close> meets the cancelled task at the front of its queue.
\<close>

definition S5_started :: ResourceIsolationScheduler where
  "S5_started = snd (initialize (ResourceIsolationScheduler_ctor example_tasks (\<lambda>w. llm_worker)) 1)"

definition S5_registered :: ResourceIsolationScheduler where
  "S5_registered =
    \<lparr>task_store = example_tasks, next_task = 0, worker_store = (\<lambda>w. llm_worker),
     workers = [0], gpuWorkers = [0], cpuWorkers = [], llmWorker = Some 0,
     llmTaskQueue = [], ttsTaskQueue = [], imageTaskQueue = [], tasks = Map.empty,
     running = True, initialized = True,
     totalTasks = 0, completedTasks = 0, failedTasks = 0, workerThreads = 1,
     calls = [Call_initialize 0]\<rparr>"

definition S5_submitted :: ResourceIsolationScheduler where
  "S5_submitted = snd (submitTask S5_registered 1000 LLM_INFERENCE MEDIUM)"

definition S5_cancelled :: ResourceIsolationScheduler where
  "S5_cancelled =
    \<lparr>task_store = example_tasks(0 := (Task_new 1000 LLM_INFERENCE MEDIUM)\<lparr>getStatus := CANCELLED\<rparr>),
     next_task = 1, worker_store = (\<lambda>w. llm_worker),
     workers = [0], gpuWorkers = [0], cpuWorkers = [], llmWorker = Some 0,
     llmTaskQueue = [0], ttsTaskQueue = [], imageTaskQueue = [], tasks = Map.empty,
     running = True, initialized = True,
     totalTasks = 1, completedTasks = 0, failedTasks = 0, workerThreads = 1,
     calls = [Call_initialize 0, Call_setStatus 0 CANCELLED]\<rparr>"

definition S5_discarded :: ResourceIsolationScheduler where
  "S5_discarded = S5_cancelled\<lparr>llmTaskQueue := []\<rparr>"

text \<open>
  The same scenario with the cancellation a moment later: a thread of
  \<open>processTaskQueues\<close> has taken the task from the queue and left its first block when
  \<open>cancelTask\<close> is called.
\<close>

definition S5_taken :: ResourceIsolationScheduler where
  "S5_taken = S5_submitted\<lparr>llmTaskQueue := []\<rparr>"

definition S5_taken_cancelled :: ResourceIsolationScheduler where
  "S5_taken_cancelled = snd (cancelTask S5_taken task_1000)"

section \<open>Invariants of ResourceIsolationScheduler\<close>

text \<open>
  The registry of workers as \<open>addWorker\<close> builds it: a worker in \<open>cpuWorkers_\<close> cannot
  handle LLM tasks, and \<open>llmWorker_\<close> can. Every address in \<open>tasks_\<close> has been
  allocated.
\<close>

definition registry_ok :: "ResourceIsolationScheduler \<Rightarrow> bool" where
  "registry_ok s \<longleftrightarrow>
     (\<forall>w\<in>set (cpuWorkers s). \<not> canHandle (worker_store s w) LLM_INFERENCE)
     \<and> (\<forall>l. llmWorker s = Some l \<longrightarrow> canHandle (worker_store s l) LLM_INFERENCE)"

definition tasks_allocated :: "ResourceIsolationScheduler \<Rightarrow> bool" where
  "tasks_allocated s \<longleftrightarrow> (\<forall>i p. tasks s i = Some p \<longrightarrow> p < next_task s)"

text \<open>
  What a pass of a dispatch function leaves alone: the registry of workers, the
  allocator, and every entry of \<open>tasks_\<close> that it does not erase.
\<close>

definition frame :: "ResourceIsolationScheduler \<Rightarrow> ResourceIsolationScheduler \<Rightarrow> bool" where
  "frame s s' \<longleftrightarrow>
     worker_store s' = worker_store s \<and> cpuWorkers s' = cpuWorkers s
     \<and> gpuWorkers s' = gpuWorkers s \<and> llmWorker s' = llmWorker s
     \<and> next_task s' = next_task s \<and> (\<forall>i. tasks s' i = None \<or> tasks s' i = tasks s i)"

text \<open>
  What a step leaves alone when the task at \<open>p\<close> is cancelled: the task stays
  cancelled, and the calls added contain no \<open>processTask\<close> on it.
\<close>

definition untouched :: "nat \<Rightarrow> ResourceIsolationScheduler \<Rightarrow> ResourceIsolationScheduler \<Rightarrow> bool" where
  "untouched p s s' \<longleftrightarrow>
     getStatus (task_store s' p) = CANCELLED
     \<and> (\<exists>ext. calls s' = calls s @ ext \<and> (\<forall>v. Call_processTask v p \<notin> set ext))"

text \<open>A scheduler none of whose dispatch threads is in the middle of a pass.\<close>

definition idle_threads :: "ResourceIsolationScheduler \<Rightarrow> system" where
  "idle_threads s = \<lparr>scheduler = s, taken = [], image_taken = []\<rparr>"

section \<open>Properties of AsyncScheduler\<close>


lemma find_if_None: "find_if P xs = None \<longleftrightarrow> (\<forall>x\<in>set xs. \<not> P x)"
  by (induction xs) auto

lemma find_if_Some:
  "find_if P xs = Some i \<Longrightarrow>
     P (xs ! i) \<and> filter P xs = xs ! i # filter P (erase i xs) \<and>
     filter (\<lambda>x. \<not> P x) xs = filter (\<lambda>x. \<not> P x) (erase i xs)"
proof (induction xs arbitrary: i)
  case Nil
  then show ?case by simp
next
  case (Cons x xs)
  show ?case
  proof (cases "P x")
    case True
    with Cons.prems show ?thesis by (simp add: erase_def)
  next
    case False
    with Cons.prems obtain j where j: "find_if P xs = Some j" "i = Suc j" by auto
    from Cons.IH [OF j(1)] False j(2) show ?thesis by (simp add: erase_def)
  qed
qed

lemma take_task_Nil: "take_task q = None \<longleftrightarrow> q = []"
  by (simp add: take_task_def split: option.splits)

lemma take_task_filter:
  assumes "take_task q = Some (t, q')"
  shows "filter (\<lambda>t. a_priority t = HIGH) q @ filter (\<lambda>t. a_priority t \<noteq> HIGH) q =
         t # filter (\<lambda>t. a_priority t = HIGH) q' @ filter (\<lambda>t. a_priority t \<noteq> HIGH) q'"
proof (cases "find_if (\<lambda>t. a_priority t = HIGH) q")
  case None
  from assms have ne: "q \<noteq> []" by (auto simp: take_task_def split: if_splits)
  from None assms ne have "t = hd q" "q' = tl q"
    by (auto simp: take_task_def erase_def drop_Suc)
  with ne have q: "q = t # q'" by simp
  from None have "\<forall>x\<in>set q. a_priority x \<noteq> HIGH" by (simp add: find_if_None)
  then have "\<forall>x\<in>set (t # q'). a_priority x \<noteq> HIGH" using q by simp
  then have "filter (\<lambda>t. a_priority t = HIGH) (t # q') = []" "a_priority t \<noteq> HIGH"
    "filter (\<lambda>t. a_priority t = HIGH) q' = []"
    by (simp_all add: filter_empty_conv)
  then show ?thesis by (subst (1 2) q) simp
next
  case (Some i)
  from assms have ne: "q \<noteq> []" by (auto simp: take_task_def split: if_splits)
  from Some assms ne have tq: "t = q ! i" "q' = erase i q"
    by (auto simp: take_task_def)
  from find_if_Some [OF Some] show ?thesis unfolding tq by simp
qed

lemma start_order_partition:
  "start_order q = filter (\<lambda>t. a_priority t = HIGH) q @ filter (\<lambda>t. a_priority t \<noteq> HIGH) q"
proof (induction q rule: start_order.induct)
  case (1 q)
  show ?case
  proof (cases "take_task q")
    case None
    then have "q = []" by (simp add: take_task_Nil)
    then show ?thesis using None by (simp add: start_order.simps [of "[]"])
  next
    case (Some p)
    obtain t q' where p: "p = (t, q')" by (cases p)
    have IH: "start_order q' =
        filter (\<lambda>t. a_priority t = HIGH) q' @ filter (\<lambda>t. a_priority t \<noteq> HIGH) q'"
      using "1.IH" Some p by simp
    have "start_order q = t # start_order q'"
      using Some p by (simp add: start_order.simps [of q])
    also have "\<dots> = filter (\<lambda>t. a_priority t = HIGH) q @ filter (\<lambda>t. a_priority t \<noteq> HIGH) q"
      using take_task_filter [of q t q'] Some p IH by simp
    finally show ?thesis .
  qed
qed

text \<open>
  C10. \<open>AsyncScheduler::submitTask\<close> given a null pointer returns 0 and changes neither
  \<open>tasks_\<close> nor any queue; the first task constructed in a process has id 0, and
  submitting it returns 0 as well: the value 0 is the answer to a rejected null task and
  the id of a real task.
\<close>

theorem submitTask_null_and_first_id_both_zero:
  "Async_submitTask s None = (0, s)
   \<and> a_id (fst (Task_ctor next_id_init ty pr)) = 0
   \<and> fst (Async_submitTask s (Some (fst (Task_ctor next_id_init ty pr)))) = 0
   \<and> a_tasks (snd (Async_submitTask s (Some (fst (Task_ctor next_id_init ty pr))))) 0
       = Some (fst (Task_ctor next_id_init ty pr))"
  by (cases ty) (simp_all add: Async_submitTask_def Task_ctor_def next_id_init_def)

lemma S2_queue: "tts_queue S2_scheduler = [S2_a, S2_b, S2_c]"
  by (simp add: S2_scheduler_def Async_submitTask_def AsyncScheduler_ctor_def S2_a_def S2_b_def S2_c_def)

lemma S2_tasks: "fst (Task_ctor next_id_init TTS_CPU LOW) = S2_a"
  "fst (Task_ctor (snd (Task_ctor next_id_init TTS_CPU LOW)) TTS_CPU HIGH) = S2_b"
  by (simp_all add: Task_ctor_def next_id_init_def S2_a_def S2_b_def)

text \<open>
  C1, as the specification states it, fails on scenario S2: the worker thread starts b,
  then a, then c. The task a of priority \<open>LOW\<close> starts before c of priority \<open>MEDIUM\<close>,
  so the order is neither b, c, a nor by descending priority.
\<close>

theorem S2_start_order_counterexample:
  "fst (worker_dequeue TTS_CPU S2_scheduler) = Some S2_b
   \<and> fst (worker_dequeue TTS_CPU (snd (worker_dequeue TTS_CPU S2_scheduler))) = Some S2_a
   \<and> fst (worker_dequeue TTS_CPU (snd (worker_dequeue TTS_CPU (snd (worker_dequeue TTS_CPU S2_scheduler))))) = Some S2_c
   \<and> start_order (tts_queue S2_scheduler) \<noteq> [S2_b, S2_c, S2_a]"
  apply (simp add: S2_queue worker_dequeue_def take_task_def erase_def)
  apply (simp add: S2_a_def S2_b_def S2_c_def start_order_partition)
  done

text \<open>
  C1, amended. A worker thread of \<open>AsyncScheduler\<close> starts the tasks of its queue in
  this order: the tasks of priority \<open>HIGH\<close> in submission order, then all other tasks
  in submission order, \<open>MEDIUM\<close> and \<open>LOW\<close> alike. \<open>processTaskQueues\<close> of
  \<open>ResourceIsolationScheduler\<close> takes the front of the LLM queue, or of the TTS queue when
  the LLM queue is empty, whatever the priorities.
\<close>

theorem dispatch_order_is_high_first_then_fifo:
  "start_order q = filter (\<lambda>t. a_priority t = HIGH) q @ filter (\<lambda>t. a_priority t \<noteq> HIGH) q
   \<and> (llmTaskQueue s = p # ps \<longrightarrow>
        front_task s = Some (p, LLM_INFERENCE, s\<lparr>llmTaskQueue := ps\<rparr>))
   \<and> (llmTaskQueue s = [] \<and> ttsTaskQueue s = p # ps \<longrightarrow>
        front_task s = Some (p, TTS_SYNTHESIS, s\<lparr>ttsTaskQueue := ps\<rparr>))"
  by (simp add: start_order_partition front_task_def)

theorem dispatch_order_is_high_first_then_fifo_witness:
  "start_order [S2_a, S2_b, S2_c] = [S2_b, S2_a, S2_c]
   \<and> llmTaskQueue two_llm_tasks = [0, 1]
   \<and> getPriority (task_store two_llm_tasks 0) = LOW
   \<and> getPriority (task_store two_llm_tasks 1) = HIGH
   \<and> front_task two_llm_tasks = Some (0, LLM_INFERENCE, two_llm_tasks\<lparr>llmTaskQueue := [1]\<rparr>)
   \<and> llmTaskQueue one_tts_task = [] \<and> ttsTaskQueue one_tts_task = [0]
   \<and> front_task one_tts_task = Some (0, TTS_SYNTHESIS, one_tts_task\<lparr>ttsTaskQueue := []\<rparr>)"
proof -
  have q: "llmTaskQueue two_llm_tasks = [0, 1]"
    by (simp add: two_llm_tasks_def submitTask_def ResourceIsolationScheduler_ctor_def Let_def)
  have pr: "getPriority (task_store two_llm_tasks 0) = LOW"
      "getPriority (task_store two_llm_tasks 1) = HIGH"
    by (simp_all add: two_llm_tasks_def submitTask_def ResourceIsolationScheduler_ctor_def
          Let_def Task_new_def)
  have r: "llmTaskQueue one_tts_task = [] \<and> ttsTaskQueue one_tts_task = [0]"
    by (simp add: one_tts_task_def submitTask_def ResourceIsolationScheduler_ctor_def Let_def)
  have a: "start_order [S2_a, S2_b, S2_c] = [S2_b, S2_a, S2_c]"
    using dispatch_order_is_high_first_then_fifo [of "[S2_a, S2_b, S2_c]"]
    by (simp add: S2_a_def S2_b_def S2_c_def)
  have b: "front_task two_llm_tasks = Some (0, LLM_INFERENCE, two_llm_tasks\<lparr>llmTaskQueue := [1]\<rparr>)"
    using dispatch_order_is_high_first_then_fifo [of "[]" two_llm_tasks 0 "[1]"] q by blast
  have c: "front_task one_tts_task = Some (0, TTS_SYNTHESIS, one_tts_task\<lparr>ttsTaskQueue := []\<rparr>)"
    using dispatch_order_is_high_first_then_fifo [of "[]" one_tts_task 0 "[]"] r by blast
  from a b c q pr r show ?thesis by blast
qed

lemma worker_dequeue_tasks: "worker_dequeue ty s = (r, s') \<Longrightarrow>
   a_tasks s' = a_tasks s \<and> execute_log s' = execute_log s"
  by (auto simp: worker_dequeue_def split: Async_TaskType.splits option.splits)

lemma Async_cancelTask_log: "execute_log (snd (Async_cancelTask s i)) = execute_log s"
  by (auto simp: Async_cancelTask_def Let_def split: Async_TaskType.splits option.splits)

lemma Async_cancelTask_fst: "fst (Async_cancelTask s i) = (i \<in> dom (a_tasks s))"
  by (auto simp: Async_cancelTask_def Let_def split: option.splits)

lemma worker_execute_log: "worker_execute t out s = Inr s' \<Longrightarrow> execute_log s' = execute_log s @ [a_id t]"
  by (auto simp: worker_execute_def Let_def split: outcome.splits)

text \<open>
  C9. \<open>AsyncScheduler::cancelTask\<close> returns true exactly when the id is a key of
  \<open>tasks_\<close>. Taking a task from its queue leaves \<open>tasks_\<close> as it is, so for a task that
  a worker thread has taken and is about to execute the call still returns true, and the
  execution goes ahead after it: \<open>execute()\<close> is called on the task all the same.
\<close>

theorem Async_cancelTask_true_iff_in_tasks:
  "fst (Async_cancelTask s i) = (i \<in> dom (a_tasks s))
   \<and> (worker_dequeue ty s = (Some t, s') \<and> a_id t \<in> dom (a_tasks s) \<longrightarrow>
        a_tasks s' = a_tasks s
        \<and> fst (Async_cancelTask s' (a_id t))
        \<and> (\<forall>out s''. worker_execute t out (snd (Async_cancelTask s' (a_id t))) = Inr s'' \<longrightarrow>
              execute_log s'' = execute_log s @ [a_id t]))"
  using worker_dequeue_tasks [of ty s "Some t" s']
  by (auto simp: Async_cancelTask_fst Async_cancelTask_log dest!: worker_execute_log)

theorem Async_cancelTask_true_iff_in_tasks_witness:
  "worker_dequeue LLM_GPU one_llm_task =
      (Some \<lparr>a_type = LLM_GPU, a_priority = MEDIUM, a_id = 0\<rparr>, one_llm_task_taken)
   \<and> 0 \<in> dom (a_tasks one_llm_task)
   \<and> fst (Async_cancelTask one_llm_task_taken 0)
   \<and> (\<exists>s''. worker_execute \<lparr>a_type = LLM_GPU, a_priority = MEDIUM, a_id = 0\<rparr> Returns
              (snd (Async_cancelTask one_llm_task_taken 0)) = Inr s''
            \<and> execute_log s'' = [0])"
proof -
  let ?t = "\<lparr>a_type = LLM_GPU, a_priority = MEDIUM, a_id = 0\<rparr>"
  have d: "worker_dequeue LLM_GPU one_llm_task = (Some ?t, one_llm_task_taken)"
    by (simp add: worker_dequeue_def one_llm_task_def one_llm_task_taken_def Async_submitTask_def
          AsyncScheduler_ctor_def take_task_def erase_def)
  have m: "a_id ?t \<in> dom (a_tasks one_llm_task)"
    by (simp add: one_llm_task_def Async_submitTask_def AsyncScheduler_ctor_def)
  have l: "execute_log one_llm_task = []"
    by (simp add: one_llm_task_def Async_submitTask_def AsyncScheduler_ctor_def)
  obtain s'' where e: "worker_execute ?t Returns (snd (Async_cancelTask one_llm_task_taken 0)) = Inr s''"
    by (simp add: worker_execute_def)
  from Async_cancelTask_true_iff_in_tasks [of one_llm_task 0 LLM_GPU ?t one_llm_task_taken] d m
  have c: "fst (Async_cancelTask one_llm_task_taken 0)"
    and x: "\<forall>out s''. worker_execute ?t out (snd (Async_cancelTask one_llm_task_taken 0)) = Inr s'' \<longrightarrow>
              execute_log s'' = execute_log one_llm_task @ [0]"
    by simp_all
  from x e l have "execute_log s'' = [0]" by simp
  with d m c e show ?thesis by auto
qed

section \<open>Properties of ResourceIsolationScheduler\<close>

subsection \<open>The scenarios, evaluated\<close>

lemma llm_task_running_eq:
  "llm_task_running =
    \<lparr>task_store = example_tasks(0 := (Task_new 1000 LLM_INFERENCE MEDIUM)\<lparr>getStatus := RUNNING\<rparr>),
     next_task = 1, worker_store = (\<lambda>w. llm_worker_detached),
     workers = [0], gpuWorkers = [0], cpuWorkers = [], llmWorker = Some 0,
     llmTaskQueue = [], ttsTaskQueue = [], imageTaskQueue = [],
     tasks = [''task_'' @ to_string 1000 \<mapsto> 0],
     running = True, initialized = True,
     totalTasks = 1, completedTasks = 0, failedTasks = 0, workerThreads = 1,
     calls = [Call_initialize 0, Call_processTask 0 0]\<rparr>"
  by (simp add: llm_task_running_def ResourceIsolationScheduler_ctor_def initialize_def
        addWorker_def submitTask_def processTaskQueues_def processTaskQueues_take_def processTaskQueues_serve_def front_task_def selectWorker_def
        run_worker_def erase_finished_def llm_worker_detached_def Let_def Task_new_def)

lemma S6_scheduler_eq:
  "S6_scheduler =
    \<lparr>task_store = example_tasks(0 := Task_new 1000 LLM_INFERENCE MEDIUM),
     next_task = 1, worker_store = (\<lambda>w. llm_worker_oom),
     workers = [0], gpuWorkers = [0], cpuWorkers = [], llmWorker = Some 0,
     llmTaskQueue = [0], ttsTaskQueue = [], imageTaskQueue = [],
     tasks = [''task_'' @ to_string 1000 \<mapsto> 0],
     running = True, initialized = True,
     totalTasks = 1, completedTasks = 0, failedTasks = 0, workerThreads = 1,
     calls = [Call_initialize 0]\<rparr>"
  by (simp add: S6_scheduler_def ResourceIsolationScheduler_ctor_def initialize_def
        addWorker_def submitTask_def llm_worker_oom_def Let_def Task_new_def)

lemma S6_step: "processTaskQueues S6_scheduler = Inr S6_after"
  by (simp add: S6_scheduler_eq S6_after_def processTaskQueues_def processTaskQueues_take_def processTaskQueues_serve_def front_task_def selectWorker_def
        idle_worker_def run_worker_def setStatus_def erase_finished_def llm_worker_oom_def Let_def Task_new_def)

lemma image_task_queued_eq:
  "image_task_queued =
    \<lparr>task_store = example_tasks(0 := Task_new 1000 IMAGE_GENERATION LOW),
     next_task = 1, worker_store = (\<lambda>w. image_worker_oom),
     workers = [0], gpuWorkers = [0], cpuWorkers = [], llmWorker = None,
     llmTaskQueue = [], ttsTaskQueue = [], imageTaskQueue = [0],
     tasks = [''task_'' @ to_string 1000 \<mapsto> 0],
     running = True, initialized = True,
     totalTasks = 1, completedTasks = 0, failedTasks = 0, workerThreads = 1,
     calls = [Call_initialize 0]\<rparr>"
  by (simp add: image_task_queued_def ResourceIsolationScheduler_ctor_def initialize_def
        addWorker_def submitTask_def image_worker_oom_def Let_def Task_new_def)

lemma S4_registry_0: "S4_registry 0 = ResourceIsolationScheduler_ctor example_tasks S4_workers"
  by (simp add: S4_registry_def ResourceIsolationScheduler_ctor_def)

lemma S4_registry_add:
  "addWorker (S4_registry 0) (Some 0) = Inr (True, S4_registry 1)"
  "addWorker (S4_registry 1) (Some 1) = Inr (True, S4_registry 2)"
  "addWorker (S4_registry 2) (Some 2) = Inr (True, S4_registry 3)"
  by (simp_all add: S4_registry_def addWorker_def S4_workers_def lm_exclusive_worker_def
        general_worker_def tts_worker_def Let_def)

lemma S5_registered_eq: "addWorker S5_started (Some 0) = Inr (True, S5_registered)"
  by (simp add: S5_started_def S5_registered_def ResourceIsolationScheduler_ctor_def
        initialize_def addWorker_def llm_worker_def Let_def)

lemma S5_submitted_eq:
  "S5_submitted =
    \<lparr>task_store = example_tasks(0 := Task_new 1000 LLM_INFERENCE MEDIUM),
     next_task = 1, worker_store = (\<lambda>w. llm_worker),
     workers = [0], gpuWorkers = [0], cpuWorkers = [], llmWorker = Some 0,
     llmTaskQueue = [0], ttsTaskQueue = [], imageTaskQueue = [], tasks = [task_1000 \<mapsto> 0],
     running = True, initialized = True,
     totalTasks = 1, completedTasks = 0, failedTasks = 0, workerThreads = 1,
     calls = [Call_initialize 0]\<rparr>"
  by (simp add: S5_submitted_def S5_registered_def submitTask_def Let_def Task_new_def task_1000_def)

lemma S5_cancelled_eq: "cancelTask S5_submitted task_1000 = (True, S5_cancelled)"
  by (simp add: S5_submitted_eq S5_cancelled_def cancelTask_def setStatus_def Let_def Task_new_def)

lemma S5_discarded_eq: "processTaskQueues S5_cancelled = Inr S5_discarded"
  by (simp add: S5_discarded_def S5_cancelled_def processTaskQueues_def processTaskQueues_take_def processTaskQueues_serve_def front_task_def Task_new_def)

subsection \<open>Dispatch passes and steps\<close>

lemma front_task_cases:
  "front_task s = Some (p, ty, s1) \<Longrightarrow>
     (ty = LLM_INFERENCE \<and> s1 = s\<lparr>llmTaskQueue := tl (llmTaskQueue s)\<rparr>)
     \<or> (ty = TTS_SYNTHESIS \<and> s1 = s\<lparr>ttsTaskQueue := tl (ttsTaskQueue s)\<rparr>)"
  by (auto simp: front_task_def split: if_splits)

lemma front_task_stores:
  "front_task s = Some (p, ty, s1) \<Longrightarrow>
     task_store s1 = task_store s \<and> worker_store s1 = worker_store s \<and> tasks s1 = tasks s
     \<and> calls s1 = calls s \<and> failedTasks s1 = failedTasks s \<and> running s1 = running s"
  by (auto dest!: front_task_cases)

lemma front_task_frame: "front_task s = Some (q, ty, s1) \<Longrightarrow> frame s s1"
  by (auto simp: frame_def dest!: front_task_cases)

lemma front_task_same:
  "front_task s = Some (q, ty, s1) \<Longrightarrow> task_store s1 = task_store s \<and> calls s1 = calls s"
  by (auto dest!: front_task_cases)

lemma run_worker_Throws_std:
  assumes "processTask (worker_store s w) (task_store s p) = (t', Throws_std msg)"
  shows "\<exists>s'. run_worker s w p = Inr s'
           \<and> task_store s' = (task_store s)(p := t'\<lparr>getStatus := FAILED\<rparr>)
           \<and> failedTasks s' = failedTasks s + 1 \<and> running s' = running s
           \<and> tasks s' = tasks s
           \<and> calls s' = calls s @ [Call_processTask w p, Call_setStatus p FAILED]"
  using assms by (simp add: run_worker_def setStatus_def Let_def)

lemma run_worker_frame: "run_worker s w q = Inr s' \<Longrightarrow> frame s s'"
  by (auto simp: frame_def run_worker_def setStatus_def Let_def split: outcome.splits if_splits)

lemma run_worker_untouched:
  "run_worker s w q = Inr s' \<Longrightarrow> q \<noteq> p \<Longrightarrow> getStatus (task_store s p) = CANCELLED \<Longrightarrow>
     untouched p s s'"
  by (auto simp: untouched_def run_worker_def setStatus_def Let_def split: outcome.splits if_splits)

lemma erase_finished_FAILED:
  "task_store s p = t \<Longrightarrow> getStatus t = FAILED \<Longrightarrow>
     erase_finished s p = s\<lparr>tasks := (tasks s)(getTaskId t := None)\<rparr>"
  by (simp add: erase_finished_def)

lemma erase_finished_frame: "frame s (erase_finished s q)"
  by (simp add: frame_def erase_finished_def)

lemma erase_finished_same:
  "task_store (erase_finished s q) = task_store s \<and> calls (erase_finished s q) = calls s"
  by (simp add: erase_finished_def)

lemma frame_trans: "frame s s1 \<Longrightarrow> frame s1 s2 \<Longrightarrow> frame s s2"
  by (auto simp: frame_def) metis

lemma untouched_same:
  "task_store s' = task_store s \<Longrightarrow> calls s' = calls s \<Longrightarrow>
     getStatus (task_store s p) = CANCELLED \<Longrightarrow> untouched p s s'"
  by (simp add: untouched_def)

lemma untouched_erase_finished: "untouched p s s1 \<Longrightarrow> untouched p s (erase_finished s1 q)"
  by (simp add: untouched_def erase_finished_same)

lemma untouched_trans: "untouched p s s1 \<Longrightarrow> untouched p s1 s2 \<Longrightarrow> untouched p s s2"
  by (auto simp: untouched_def)

lemma put_back_frame:
  "frame s1 (case ty of LLM_INFERENCE \<Rightarrow> s1\<lparr>llmTaskQueue := llmTaskQueue s1 @ [q]\<rparr>
                      | TTS_SYNTHESIS \<Rightarrow> s1\<lparr>ttsTaskQueue := ttsTaskQueue s1 @ [q]\<rparr>
                      | IMAGE_GENERATION \<Rightarrow> s1)"
  by (cases ty) (simp_all add: frame_def)

lemma put_back_same:
  "task_store (case ty of LLM_INFERENCE \<Rightarrow> s1\<lparr>llmTaskQueue := llmTaskQueue s1 @ [q]\<rparr>
                      | TTS_SYNTHESIS \<Rightarrow> s1\<lparr>ttsTaskQueue := ttsTaskQueue s1 @ [q]\<rparr>
                      | IMAGE_GENERATION \<Rightarrow> s1) = task_store s1
   \<and> calls (case ty of LLM_INFERENCE \<Rightarrow> s1\<lparr>llmTaskQueue := llmTaskQueue s1 @ [q]\<rparr>
                      | TTS_SYNTHESIS \<Rightarrow> s1\<lparr>ttsTaskQueue := ttsTaskQueue s1 @ [q]\<rparr>
                      | IMAGE_GENERATION \<Rightarrow> s1) = calls s1"
  by (cases ty) simp_all

lemma processTaskQueues_take_frame:
  assumes "processTaskQueues_take s = (r, s')"
  shows "frame s s' \<and> task_store s' = task_store s \<and> calls s' = calls s
     \<and> (\<forall>q ty. r = Some (q, ty) \<longrightarrow> getStatus (task_store s q) \<noteq> CANCELLED)"
proof (cases "front_task s")
  case None
  with assms show ?thesis by (simp add: processTaskQueues_take_def frame_def)
next
  case (Some x)
  obtain q ty s1 where x: "x = (q, ty, s1)" by (cases x)
  note f = front_task_frame [OF Some [unfolded x]]
  note e = front_task_same [OF Some [unfolded x]]
  show ?thesis
  proof (cases "getStatus (task_store s1 q) = CANCELLED")
    case True
    with assms Some x have "s' = s1\<lparr>tasks := (tasks s1)(getTaskId (task_store s1 q) := None)\<rparr>"
        and "r = None"
      by (simp_all add: processTaskQueues_take_def)
    with f e show ?thesis by (simp add: frame_def)
  next
    case False
    with assms Some x have "s' = s1" "r = Some (q, ty)"
      by (simp_all add: processTaskQueues_take_def)
    with f e False show ?thesis by simp
  qed
qed

lemma processTaskQueues_serve_frame_untouched:
  assumes "processTaskQueues_serve s q ty = Inr s'"
  shows "frame s s' \<and> (q \<noteq> p \<and> getStatus (task_store s p) = CANCELLED \<longrightarrow> untouched p s s')"
proof (cases "selectWorker s ty")
  case None
  let ?b = "case ty of LLM_INFERENCE \<Rightarrow> s\<lparr>llmTaskQueue := llmTaskQueue s @ [q]\<rparr>
                  | TTS_SYNTHESIS \<Rightarrow> s\<lparr>ttsTaskQueue := ttsTaskQueue s @ [q]\<rparr>
                  | IMAGE_GENERATION \<Rightarrow> s"
  from None assms have s': "s' = erase_finished ?b q"
    by (simp add: processTaskQueues_serve_def)
  have "frame s s'" unfolding s'
    using put_back_frame [where ty = ty and q = q and ?s1.0 = s] erase_finished_frame [of ?b q]
    by (blast intro: frame_trans)
  moreover have "task_store s' = task_store s" "calls s' = calls s"
    unfolding s' using put_back_same [where ty = ty and q = q and ?s1.0 = s]
    by (simp_all add: erase_finished_same)
  ultimately show ?thesis by (simp add: untouched_def)
next
  case (Some w)
  with assms obtain s2 where s2: "run_worker s w q = Inr s2" "s' = erase_finished s2 q"
    by (auto simp: processTaskQueues_serve_def split: sum.splits)
  have "frame s s'" unfolding s2(2)
    using run_worker_frame [OF s2(1)] erase_finished_frame [of s2 q]
    by (blast intro: frame_trans)
  moreover have "untouched p s s'" if c: "q \<noteq> p \<and> getStatus (task_store s p) = CANCELLED"
  proof -
    from run_worker_untouched [OF s2(1)] c have "untouched p s s2" by simp
    then show ?thesis unfolding s2(2) by (rule untouched_erase_finished)
  qed
  ultimately show ?thesis by simp
qed

lemma processImageGenerationQueue_serve_frame_untouched:
  assumes "processImageGenerationQueue_serve s q = Inr s'"
  shows "frame s s' \<and> (getStatus (task_store s p) = CANCELLED \<longrightarrow> untouched p s s')"
proof (cases "tasks s (getTaskId (task_store s q)) = None \<or> getStatus (task_store s q) = CANCELLED")
  case True
  with assms have "s' = s" by (auto simp: processImageGenerationQueue_serve_def)
  then show ?thesis by (simp add: frame_def untouched_def)
next
  case False
  show ?thesis
  proof (cases "image_worker s")
    case None
    let ?b = "s\<lparr>imageTaskQueue := imageTaskQueue s @ [q]\<rparr>"
    from None assms False have s': "s' = erase_finished ?b q"
      by (auto simp: processImageGenerationQueue_serve_def)
    have "frame s ?b" by (simp add: frame_def)
    then have "frame s s'" unfolding s'
      using erase_finished_frame [of ?b q] by (blast intro: frame_trans)
    moreover have "task_store s' = task_store s" "calls s' = calls s"
      unfolding s' by (simp_all add: erase_finished_same)
    ultimately show ?thesis by (simp add: untouched_def)
  next
    case (Some w)
    with assms False obtain s2 where
      s2: "run_worker s w q = Inr s2" "s' = erase_finished s2 q"
      by (auto simp: processImageGenerationQueue_serve_def split: sum.splits)
    have "frame s s'" unfolding s2(2)
      using run_worker_frame [OF s2(1)] erase_finished_frame [of s2 q]
      by (blast intro: frame_trans)
    moreover have "untouched p s s'" if c: "getStatus (task_store s p) = CANCELLED"
    proof -
      from c False have "q \<noteq> p" by auto
      from run_worker_untouched [OF s2(1) this] c have "untouched p s s2" by simp
      then show ?thesis unfolding s2(2) by (rule untouched_erase_finished)
    qed
    ultimately show ?thesis by simp
  qed
qed

lemma addWorker_registry_ok:
  assumes "addWorker s worker = Inr (ok, s')" "registry_ok s"
  shows "registry_ok s'"
proof (cases worker)
  case None
  with assms show ?thesis by (simp add: addWorker_def)
next
  case (Some w)
  show ?thesis
  proof (cases "worker_initialize (worker_store s w)")
    case Returns
    with assms Some show ?thesis
      by (auto simp: addWorker_def registry_ok_def Let_def split: if_splits option.splits)
  next
    case (Throws_std msg)
    with assms Some show ?thesis by (auto simp: addWorker_def registry_ok_def Let_def)
  next
    case Throws_other
    with assms Some show ?thesis by (simp add: addWorker_def Let_def)
  qed
qed

lemma addWorker_same:
  assumes "addWorker s worker = Inr (ok, s')"
  shows "task_store s' = task_store s \<and> next_task s' = next_task s \<and> tasks s' = tasks s
     \<and> (calls s' = calls s \<or> (\<exists>w. calls s' = calls s @ [Call_initialize w]))"
  using assms
  by (auto simp: addWorker_def Let_def split: option.splits outcome.splits if_splits)

lemma frame_registry_ok: "frame s s' \<Longrightarrow> registry_ok s \<Longrightarrow> registry_ok s'"
  by (simp add: frame_def registry_ok_def)

lemma frame_tasks_allocated: "frame s s' \<Longrightarrow> tasks_allocated s \<Longrightarrow> tasks_allocated s'"
  unfolding frame_def tasks_allocated_def by (metis option.distinct(1))

lemma call_step_registry_ok: "call_step s s' \<Longrightarrow> registry_ok s \<Longrightarrow> registry_ok s'"
proof (induction rule: call_step.induct)
  case (call_initialize s n)
  then show ?case by (simp add: initialize_def registry_ok_def)
next
  case (call_shutdown s)
  then show ?case by (simp add: shutdown_def registry_ok_def)
next
  case (call_addWorker s worker ok s')
  then show ?case by (rule addWorker_registry_ok)
next
  case (call_submitTask s now ty pr)
  then show ?case by (cases ty) (simp_all add: submitTask_def registry_ok_def Let_def)
next
  case (call_cancelTask s taskId)
  then show ?case
    by (auto simp: cancelTask_def setStatus_def registry_ok_def Let_def split: option.splits)
next
  case (call_busy s w b)
  then show ?case by (auto simp: registry_ok_def)
qed

lemma call_step_tasks_allocated: "call_step s s' \<Longrightarrow> tasks_allocated s \<Longrightarrow> tasks_allocated s'"
proof (induction rule: call_step.induct)
  case (call_initialize s n)
  then show ?case by (simp add: initialize_def tasks_allocated_def)
next
  case (call_shutdown s)
  then show ?case by (simp add: shutdown_def tasks_allocated_def)
next
  case (call_addWorker s worker ok s')
  then show ?case using addWorker_same [of s worker ok s'] by (simp add: tasks_allocated_def)
next
  case (call_submitTask s now ty pr)
  then show ?case
    by (cases ty) (auto simp: submitTask_def tasks_allocated_def Let_def less_Suc_eq split: if_splits)
next
  case (call_cancelTask s taskId)
  then show ?case
    by (auto simp: cancelTask_def setStatus_def tasks_allocated_def Let_def
          split: option.splits if_splits)
next
  case (call_busy s w b)
  then show ?case by (simp add: tasks_allocated_def)
qed

lemma call_step_untouched:
  assumes "call_step s s'" "getStatus (task_store s p) = CANCELLED" "p < next_task s"
  shows "untouched p s s' \<and> p < next_task s'"
  using assms
proof (induction rule: call_step.induct)
  case (call_initialize s n)
  then show ?case by (simp add: initialize_def untouched_def)
next
  case (call_shutdown s)
  then show ?case by (auto simp: shutdown_def untouched_def)
next
  case (call_addWorker s worker ok s')
  then show ?case using addWorker_same [of s worker ok s'] by (auto simp: untouched_def)
next
  case (call_submitTask s now ty pr)
  then show ?case by (cases ty) (simp_all add: submitTask_def untouched_def Let_def)
next
  case (call_cancelTask s taskId)
  then show ?case
    by (auto simp: cancelTask_def setStatus_def untouched_def Let_def split: option.splits)
next
  case (call_busy s w b)
  then show ?case by (simp add: untouched_def)
qed

lemma step_invariants:
  assumes "step \<sigma> \<sigma>'" "registry_ok (scheduler \<sigma>) \<and> tasks_allocated (scheduler \<sigma>)"
  shows "registry_ok (scheduler \<sigma>') \<and> tasks_allocated (scheduler \<sigma>')"
  using assms
proof (induction rule: step.induct)
  case (step_call \<sigma> s')
  then show ?case by (simp add: call_step_registry_ok call_step_tasks_allocated)
next
  case (step_take_none \<sigma> s')
  from processTaskQueues_take_frame [OF step_take_none(2)] step_take_none(3)
  show ?case by (auto intro: frame_registry_ok frame_tasks_allocated)
next
  case (step_take \<sigma> p ty s')
  from processTaskQueues_take_frame [OF step_take(2)] step_take(3)
  show ?case by (auto intro: frame_registry_ok frame_tasks_allocated)
next
  case (step_serve p ty \<sigma> s')
  from processTaskQueues_serve_frame_untouched [OF step_serve(2)] step_serve(3)
  show ?case by (auto intro: frame_registry_ok frame_tasks_allocated)
next
  case (step_image_take \<sigma> p q)
  then show ?case by (simp add: registry_ok_def tasks_allocated_def)
next
  case (step_image_serve p \<sigma> s')
  from processImageGenerationQueue_serve_frame_untouched [OF step_image_serve(2)] step_image_serve(3)
  show ?case by (auto intro: frame_registry_ok frame_tasks_allocated)
qed

lemma reachable_invariants:
  "reachable \<sigma> \<Longrightarrow> registry_ok (scheduler \<sigma>) \<and> tasks_allocated (scheduler \<sigma>)"
proof (induction rule: reachable.induct)
  case (reachable_ctor ts ws)
  show ?case by (simp add: ResourceIsolationScheduler_ctor_def registry_ok_def tasks_allocated_def)
next
  case (reachable_step \<sigma> \<sigma>')
  then show ?case by (simp add: step_invariants)
qed

text \<open>
  A cancelled task that no thread of \<open>processTaskQueues\<close> holds stays so, and is not
  handed to a worker.
\<close>

lemma step_untouched:
  assumes "step \<sigma> \<sigma>'" "getStatus (task_store (scheduler \<sigma>) p) = CANCELLED"
    "p < next_task (scheduler \<sigma>)" "p \<notin> fst ` set (taken \<sigma>)"
  shows "untouched p (scheduler \<sigma>) (scheduler \<sigma>') \<and> p < next_task (scheduler \<sigma>')
     \<and> p \<notin> fst ` set (taken \<sigma>')"
  using assms
proof (induction rule: step.induct)
  case (step_call \<sigma> s')
  from call_step_untouched [OF step_call(1) step_call(2) step_call(3)] step_call(4)
  show ?case by simp
next
  case (step_take_none \<sigma> s')
  from processTaskQueues_take_frame [OF step_take_none(2)] step_take_none(3-5)
  show ?case by (simp add: frame_def untouched_def)
next
  case (step_take \<sigma> q ty s')
  from processTaskQueues_take_frame [OF step_take(2)] step_take(3-5)
  show ?case by (auto simp: frame_def untouched_def)
next
  case (step_serve q ty \<sigma> s')
  from step_serve(1,5) have "q \<noteq> p" by force
  with processTaskQueues_serve_frame_untouched [OF step_serve(2), of p] step_serve(3-5)
  show ?case by (auto simp: frame_def dest: notin_set_remove1)
next
  case (step_image_take \<sigma> q qs)
  then show ?case by (simp add: untouched_def)
next
  case (step_image_serve q \<sigma> s')
  from processImageGenerationQueue_serve_frame_untouched [OF step_image_serve(2), of p]
    step_image_serve(3-5)
  show ?case by (simp add: frame_def)
qed

lemma steps_untouched:
  assumes "step\<^sup>*\<^sup>* \<sigma> \<sigma>'" "getStatus (task_store (scheduler \<sigma>) p) = CANCELLED"
    "p < next_task (scheduler \<sigma>)" "p \<notin> fst ` set (taken \<sigma>)"
  shows "untouched p (scheduler \<sigma>) (scheduler \<sigma>') \<and> p < next_task (scheduler \<sigma>')
     \<and> p \<notin> fst ` set (taken \<sigma>')"
  using assms
proof (induction rule: rtranclp_induct)
  case base
  then show ?case by (simp add: untouched_def)
next
  case (step y z)
  then have u: "untouched p (scheduler \<sigma>) (scheduler y)" "p < next_task (scheduler y)"
      "p \<notin> fst ` set (taken y)"
    by simp_all
  then have "getStatus (task_store (scheduler y) p) = CANCELLED" by (simp add: untouched_def)
  from step_untouched [OF step.hyps(2) this u(2) u(3)] u(1) show ?case
    by (blast intro: untouched_trans)
qed

lemma step_idle_call: "call_step s s' \<Longrightarrow> step (idle_threads s) (idle_threads s')"
  using step_call [of "idle_threads s" s'] by (simp add: idle_threads_def)

lemma S4_registry_reachable: "reachable (idle_threads (S4_registry 3))"
proof -
  have "reachable (idle_threads (S4_registry 0))"
    unfolding S4_registry_0 idle_threads_def by (rule reachable_ctor)
  then have "reachable (idle_threads (S4_registry 1))"
    by (rule reachable_step) (rule step_idle_call, rule call_addWorker, rule S4_registry_add)
  then have "reachable (idle_threads (S4_registry 2))"
    by (rule reachable_step) (rule step_idle_call, rule call_addWorker, rule S4_registry_add)
  then show ?thesis
    by (rule reachable_step) (rule step_idle_call, rule call_addWorker, rule S4_registry_add)
qed

lemma S5_reachable: "reachable (idle_threads S5_submitted)"
proof -
  have "reachable (idle_threads (ResourceIsolationScheduler_ctor example_tasks (\<lambda>w. llm_worker)))"
    unfolding idle_threads_def by (rule reachable_ctor)
  then have "reachable (idle_threads S5_started)"
    unfolding S5_started_def by (rule reachable_step) (rule step_idle_call, rule call_initialize)
  then have "reachable (idle_threads S5_registered)"
    by (rule reachable_step) (rule step_idle_call, rule call_addWorker, rule S5_registered_eq)
  then show ?thesis
    unfolding S5_submitted_def by (rule reachable_step) (rule step_idle_call, rule call_submitTask)
qed

subsection \<open>Status query\<close>

text \<open>
  C2, as the specification states it, fails: for an id that is not in \<open>tasks_\<close>
  the answer is \<open>CANCELLED\<close>, one of the five values of \<open>TaskStatus\<close> and the status a
  cancelled task has, not an outcome of its own.
\<close>

theorem getTaskStatus_absent_counterexample:
  "tasks fresh_scheduler ''task_1000'' = None
   \<and> getTaskStatus fresh_scheduler ''task_1000'' = CANCELLED"
  by (simp add: fresh_scheduler_def ResourceIsolationScheduler_ctor_def getTaskStatus_def)

text \<open>
  C2, amended. \<open>getTaskStatus\<close> returns the current status of the task when the id is
  in \<open>tasks_\<close>, and \<open>CANCELLED\<close> when it is not.
\<close>

theorem getTaskStatus_present_or_cancelled:
  "(tasks s taskId = Some p \<longrightarrow> getTaskStatus s taskId = getStatus (task_store s p))
   \<and> (taskId \<notin> dom (tasks s) \<longrightarrow> getTaskStatus s taskId = CANCELLED)"
  by (auto simp: getTaskStatus_def split: option.splits)

theorem getTaskStatus_present_or_cancelled_witness:
  "tasks one_tts_task (''task_'' @ to_string 1000) = Some 0
   \<and> getTaskStatus one_tts_task (''task_'' @ to_string 1000) = PENDING
   \<and> ''task_1001'' \<notin> dom (tasks fresh_scheduler)
   \<and> getTaskStatus fresh_scheduler ''task_1001'' = CANCELLED"
proof -
  have a: "tasks one_tts_task (''task_'' @ to_string 1000) = Some 0"
    by (simp add: one_tts_task_def submitTask_def ResourceIsolationScheduler_ctor_def Let_def Task_new_def)
  have b: "getStatus (task_store one_tts_task 0) = PENDING"
    by (simp add: one_tts_task_def submitTask_def ResourceIsolationScheduler_ctor_def Let_def Task_new_def)
  have c: "''task_1001'' \<notin> dom (tasks fresh_scheduler)"
    by (simp add: fresh_scheduler_def ResourceIsolationScheduler_ctor_def)
  from getTaskStatus_present_or_cancelled [of one_tts_task "''task_'' @ to_string 1000" 0] a b
  have d: "getTaskStatus one_tts_task (''task_'' @ to_string 1000) = PENDING" by simp
  from getTaskStatus_present_or_cancelled [of fresh_scheduler "''task_1001''" 0] c
  have e: "getTaskStatus fresh_scheduler ''task_1001'' = CANCELLED" by simp
  from a c d e show ?thesis by simp
qed

subsection \<open>Cancellation\<close>

lemma cancelTask_PENDING:
  assumes "tasks s taskId = Some p" "getStatus (task_store s p) = PENDING"
  shows "cancelTask s taskId =
           (True, s\<lparr>task_store := (task_store s)(p := (task_store s p)\<lparr>getStatus := CANCELLED\<rparr>),
                    calls := calls s @ [Call_setStatus p CANCELLED],
                    tasks := (tasks s)(taskId := None)\<rparr>)"
  using assms by (simp add: cancelTask_def setStatus_def Let_def)

lemma cancelTask_False: "\<not> fst (cancelTask s taskId) \<Longrightarrow> snd (cancelTask s taskId) = s"
  by (auto simp: cancelTask_def Let_def split: option.splits if_splits)

lemma cancelTask_True_tasks: "cancelTask s taskId = (True, s') \<Longrightarrow> tasks s' taskId = None"
  by (auto simp: cancelTask_def Let_def setStatus_def split: option.splits if_splits)

lemma Async_cancelTask_True_tasks: "Async_cancelTask s i = (True, s') \<Longrightarrow> a_tasks s' i = None"
  by (auto simp: Async_cancelTask_def Let_def split: option.splits Async_TaskType.splits)

text \<open>
  C3, as the specification states it, fails on scenario S5: cancelling the waiting
  task succeeds, and the only call the scheduler makes on a task or a worker while doing
  so is \<open>setStatus(CANCELLED)\<close>. No completion handler is called; \<open>ITask\<close> has none.
\<close>

theorem cancelTask_invokes_no_handler_counterexample:
  "tasks S5_submitted task_1000 = Some 0
   \<and> getStatus (task_store S5_submitted 0) = PENDING
   \<and> cancelTask S5_submitted task_1000 = (True, S5_cancelled)
   \<and> calls S5_submitted = [Call_initialize 0]
   \<and> calls S5_cancelled = [Call_initialize 0, Call_setStatus 0 CANCELLED]"
  using S5_cancelled_eq by (simp add: S5_submitted_eq S5_cancelled_def Task_new_def)

text \<open>
  C3, amended. Take a scheduler reached from its constructor, an id, and the task that
  \<open>tasks_\<close> holds under that id (of two tasks with one id, the one submitted later);
  let its status be \<open>PENDING\<close>, and let no thread of \<open>processTaskQueues\<close> hold it at
  that moment between taking it from its queue and serving it. Then \<open>cancelTask\<close> on the
  id sets the status of that task to \<open>CANCELLED\<close>, removes the id from \<open>tasks_\<close> and
  returns true; it calls nothing else on the task, and the three queues are as before,
  so a task that waited in its queue is still there. Whatever the scheduler and its
  threads do from then on, the task stays \<open>CANCELLED\<close> and no worker's \<open>processTask\<close>
  is called on it after the cancellation.
\<close>

theorem cancelTask_pending_cancels_and_worker_never_runs_it:
  "reachable \<sigma> \<and> tasks (scheduler \<sigma>) taskId = Some p
     \<and> getStatus (task_store (scheduler \<sigma>) p) = PENDING
     \<and> p \<notin> fst ` set (taken \<sigma>) \<longrightarrow>
     (\<exists>s'. cancelTask (scheduler \<sigma>) taskId = (True, s')
        \<and> getStatus (task_store s' p) = CANCELLED
        \<and> tasks s' = (tasks (scheduler \<sigma>))(taskId := None)
        \<and> llmTaskQueue s' = llmTaskQueue (scheduler \<sigma>)
        \<and> ttsTaskQueue s' = ttsTaskQueue (scheduler \<sigma>)
        \<and> imageTaskQueue s' = imageTaskQueue (scheduler \<sigma>)
        \<and> calls s' = calls (scheduler \<sigma>) @ [Call_setStatus p CANCELLED]
        \<and> (\<forall>\<sigma>''. step\<^sup>*\<^sup>* (\<sigma>\<lparr>scheduler := s'\<rparr>) \<sigma>'' \<longrightarrow>
              getStatus (task_store (scheduler \<sigma>'') p) = CANCELLED
              \<and> (\<exists>ext. calls (scheduler \<sigma>'') = calls s' @ ext
                     \<and> (\<forall>w. Call_processTask w p \<notin> set ext))))"
proof
  let ?s = "scheduler \<sigma>"
  assume a: "reachable \<sigma> \<and> tasks ?s taskId = Some p \<and> getStatus (task_store ?s p) = PENDING
     \<and> p \<notin> fst ` set (taken \<sigma>)"
  let ?s' = "?s\<lparr>task_store := (task_store ?s)(p := (task_store ?s p)\<lparr>getStatus := CANCELLED\<rparr>),
                calls := calls ?s @ [Call_setStatus p CANCELLED],
                tasks := (tasks ?s)(taskId := None)\<rparr>"
  from a have c: "cancelTask ?s taskId = (True, ?s')" by (simp add: cancelTask_PENDING)
  from a have "tasks_allocated ?s" by (simp add: reachable_invariants)
  with a have p: "p < next_task (scheduler (\<sigma>\<lparr>scheduler := ?s'\<rparr>))"
    by (auto simp: tasks_allocated_def)
  have st: "getStatus (task_store (scheduler (\<sigma>\<lparr>scheduler := ?s'\<rparr>)) p) = CANCELLED" by simp
  from a have t: "p \<notin> fst ` set (taken (\<sigma>\<lparr>scheduler := ?s'\<rparr>))" by simp
  have "\<forall>\<sigma>''. step\<^sup>*\<^sup>* (\<sigma>\<lparr>scheduler := ?s'\<rparr>) \<sigma>'' \<longrightarrow>
              getStatus (task_store (scheduler \<sigma>'') p) = CANCELLED
              \<and> (\<exists>ext. calls (scheduler \<sigma>'') = calls ?s' @ ext
                     \<and> (\<forall>w. Call_processTask w p \<notin> set ext))"
    using steps_untouched [OF _ st p t] by (simp add: untouched_def)
  with c show "\<exists>s'. cancelTask ?s taskId = (True, s')
        \<and> getStatus (task_store s' p) = CANCELLED
        \<and> tasks s' = (tasks ?s)(taskId := None)
        \<and> llmTaskQueue s' = llmTaskQueue ?s
        \<and> ttsTaskQueue s' = ttsTaskQueue ?s
        \<and> imageTaskQueue s' = imageTaskQueue ?s
        \<and> calls s' = calls ?s @ [Call_setStatus p CANCELLED]
        \<and> (\<forall>\<sigma>''. step\<^sup>*\<^sup>* (\<sigma>\<lparr>scheduler := s'\<rparr>) \<sigma>'' \<longrightarrow>
              getStatus (task_store (scheduler \<sigma>'') p) = CANCELLED
              \<and> (\<exists>ext. calls (scheduler \<sigma>'') = calls s' @ ext
                     \<and> (\<forall>w. Call_processTask w p \<notin> set ext)))"
    by (intro exI [of _ ?s']) simp
qed

theorem cancelTask_pending_cancels_and_worker_never_runs_it_witness:
  "reachable (idle_threads S5_submitted)
   \<and> tasks S5_submitted task_1000 = Some 0
   \<and> getStatus (task_store S5_submitted 0) = PENDING
   \<and> 0 \<notin> fst ` set (taken (idle_threads S5_submitted))
   \<and> cancelTask S5_submitted task_1000 = (True, S5_cancelled)
   \<and> llmTaskQueue S5_cancelled = [0]
   \<and> step\<^sup>*\<^sup>* (idle_threads S5_cancelled) (idle_threads S5_discarded)
   \<and> getStatus (task_store S5_discarded 0) = CANCELLED
   \<and> (\<exists>ext. calls S5_discarded = calls S5_cancelled @ ext
          \<and> (\<forall>w. Call_processTask w 0 \<notin> set ext))"
proof -
  have h: "tasks (scheduler (idle_threads S5_submitted)) task_1000 = Some 0
      \<and> getStatus (task_store (scheduler (idle_threads S5_submitted)) 0) = PENDING
      \<and> 0 \<notin> fst ` set (taken (idle_threads S5_submitted))"
    by (simp add: idle_threads_def S5_submitted_eq Task_new_def)
  have q: "llmTaskQueue S5_cancelled = [0]" "running S5_cancelled"
    by (simp_all add: S5_cancelled_def)
  have "processTaskQueues_take S5_cancelled = (None, S5_discarded)"
    by (simp add: S5_discarded_def S5_cancelled_def processTaskQueues_take_def front_task_def
          Task_new_def)
  with q(2) have "step (idle_threads S5_cancelled) (idle_threads S5_discarded)"
    using step_take_none [of "idle_threads S5_cancelled" S5_discarded]
    by (simp add: idle_threads_def)
  then have st: "step\<^sup>*\<^sup>* (idle_threads S5_cancelled) (idle_threads S5_discarded)"
    by (rule r_into_rtranclp)
  from cancelTask_pending_cancels_and_worker_never_runs_it
         [of "idle_threads S5_submitted" task_1000 0] S5_reachable h
  obtain s' where s': "cancelTask (scheduler (idle_threads S5_submitted)) task_1000 = (True, s')"
    and n: "\<forall>\<sigma>''. step\<^sup>*\<^sup>* ((idle_threads S5_submitted)\<lparr>scheduler := s'\<rparr>) \<sigma>'' \<longrightarrow>
              getStatus (task_store (scheduler \<sigma>'') 0) = CANCELLED
              \<and> (\<exists>ext. calls (scheduler \<sigma>'') = calls s' @ ext
                     \<and> (\<forall>w. Call_processTask w 0 \<notin> set ext))"
    by blast
  from s' S5_cancelled_eq have e: "s' = S5_cancelled" by (simp add: idle_threads_def)
  have i: "(idle_threads S5_submitted)\<lparr>scheduler := S5_cancelled\<rparr> = idle_threads S5_cancelled"
    by (simp add: idle_threads_def)
  from n st have "getStatus (task_store (scheduler (idle_threads S5_discarded)) 0) = CANCELLED
     \<and> (\<exists>ext. calls (scheduler (idle_threads S5_discarded)) = calls S5_cancelled @ ext
          \<and> (\<forall>w. Call_processTask w 0 \<notin> set ext))"
    unfolding e i by blast
  then have "getStatus (task_store S5_discarded 0) = CANCELLED
     \<and> (\<exists>ext. calls S5_discarded = calls S5_cancelled @ ext
          \<and> (\<forall>w. Call_processTask w 0 \<notin> set ext))"
    by (simp add: idle_threads_def)
  moreover from h have "tasks S5_submitted task_1000 = Some 0
      \<and> getStatus (task_store S5_submitted 0) = PENDING
      \<and> 0 \<notin> fst ` set (taken (idle_threads S5_submitted))"
    by (simp add: idle_threads_def)
  ultimately show ?thesis using S5_reachable q st S5_cancelled_eq by blast
qed

text \<open>
  The condition on the threads cannot be dropped: when a thread has taken the task and
  left the block that checks for cancellation, \<open>cancelTask\<close> still finds the task
  \<open>PENDING\<close> and returns true, and the thread then hands the task to the worker.
\<close>

lemma cancelTask_after_take_does_not_stop_the_worker:
  "processTaskQueues_take S5_submitted = (Some (0, LLM_INFERENCE), S5_taken)
   \<and> cancelTask S5_taken task_1000 = (True, S5_taken_cancelled)
   \<and> getStatus (task_store S5_taken_cancelled 0) = CANCELLED
   \<and> (\<exists>s'. processTaskQueues_serve S5_taken_cancelled 0 LLM_INFERENCE = Inr s'
          \<and> calls s' = calls S5_taken_cancelled @ [Call_processTask 0 0]
          \<and> getStatus (task_store s' 0) = COMPLETED)"
proof -
  have a: "processTaskQueues_take S5_submitted = (Some (0, LLM_INFERENCE), S5_taken)"
    by (simp add: S5_taken_def S5_submitted_eq processTaskQueues_take_def front_task_def Task_new_def)
  have "fst (cancelTask S5_taken task_1000)"
    by (simp add: S5_taken_def S5_submitted_eq cancelTask_def Task_new_def Let_def)
  then have b: "cancelTask S5_taken task_1000 = (True, S5_taken_cancelled)"
    by (simp add: S5_taken_cancelled_def prod_eq_iff)
  have c: "S5_taken_cancelled =
      S5_cancelled\<lparr>llmTaskQueue := []\<rparr>"
    by (simp add: S5_taken_cancelled_def S5_taken_def S5_submitted_eq S5_cancelled_def
          cancelTask_def setStatus_def Let_def Task_new_def)
  have d: "getStatus (task_store S5_taken_cancelled 0) = CANCELLED"
    by (simp add: c S5_cancelled_def)
  have e: "\<exists>s'. processTaskQueues_serve S5_taken_cancelled 0 LLM_INFERENCE = Inr s'
          \<and> calls s' = calls S5_taken_cancelled @ [Call_processTask 0 0]
          \<and> getStatus (task_store s' 0) = COMPLETED"
    by (simp add: c S5_cancelled_def processTaskQueues_serve_def selectWorker_def idle_worker_def
          run_worker_def erase_finished_def llm_worker_def Let_def)
  from a b d e show ?thesis by blast
qed

text \<open>
  C4, as the specification states it, fails: \<open>cancelTask\<close> returns a \<open>bool\<close>, and
  its answer for a task that is \<open>RUNNING\<close> is the answer for an id that is not in
  \<open>tasks_\<close>.
\<close>

theorem cancelTask_running_counterexample:
  "tasks llm_task_running (''task_'' @ to_string 1000) = Some 0
   \<and> getStatus (task_store llm_task_running 0) = RUNNING
   \<and> ''task_7'' \<notin> dom (tasks llm_task_running)
   \<and> fst (cancelTask llm_task_running (''task_'' @ to_string 1000))
       = fst (cancelTask llm_task_running ''task_7'')"
  by (simp add: llm_task_running_eq cancelTask_def Task_new_def to_string_def to_string_nat.simps)

text \<open>
  An id that is not in \<open>tasks_\<close> stays out of it until a task of that id is
  submitted, in both schedulers.
\<close>

lemma cancelTask_not_PENDING:
  "(\<forall>q. tasks s taskId = Some q \<longrightarrow> getStatus (task_store s q) \<noteq> PENDING) \<Longrightarrow>
     cancelTask s taskId = (False, s)"
  by (auto simp: cancelTask_def split: option.splits)

lemma Async_cancelTask_absent: "a_tasks s i = None \<Longrightarrow> Async_cancelTask s i = (False, s)"
  by (simp add: Async_cancelTask_def)

lemma Async_step_absent:
  assumes "Async_step s s'" "a_tasks s i = None"
  shows "a_tasks s' i = None \<or> Async_submits_id i s s'"
  using assms
proof (induction rule: Async_step.induct)
  case (Async_step_start s)
  then show ?case by (simp add: Async_start_def)
next
  case (Async_step_stop s)
  then show ?case by (simp add: Async_stop_def)
next
  case (Async_step_submitTask s task)
  show ?case
  proof (cases task)
    case None
    with Async_step_submitTask show ?thesis by (simp add: Async_submitTask_def)
  next
    case (Some t)
    show ?thesis
    proof (cases "a_id t = i")
      case True
      with Some show ?thesis by (auto simp: Async_submits_id_def)
    next
      case False
      with Some Async_step_submitTask show ?thesis
        by (cases "a_type t") (simp_all add: Async_submitTask_def Let_def)
    qed
  qed
next
  case (Async_step_cancelTask s task_id)
  then show ?case
    by (auto simp: Async_cancelTask_def Let_def split: option.splits Async_TaskType.splits)
next
  case (Async_step_dequeue s worker_type r s')
  then show ?case
    by (auto simp: worker_dequeue_def split: Async_TaskType.splits option.splits)
next
  case (Async_step_execute t out s s')
  then show ?case by (auto simp: worker_execute_def Let_def split: outcome.splits)
qed

lemma Async_steps_absent:
  assumes "(Async_step_without i)\<^sup>*\<^sup>* s s'" "a_tasks s i = None"
  shows "a_tasks s' i = None"
  using assms
proof (induction rule: rtranclp_induct)
  case base
  then show ?case by simp
next
  case (step y z)
  then show ?case using Async_step_absent [of y z i] by (auto simp: Async_step_without_def)
qed

lemma call_step_absent:
  assumes "call_step s s'" "tasks s i = None"
  shows "tasks s' i = None
     \<or> (\<exists>now ty pr. getTaskId (Task_new now ty pr) = i \<and> s' = snd (submitTask s now ty pr))"
  using assms
proof (induction rule: call_step.induct)
  case (call_initialize s n)
  then show ?case by (simp add: initialize_def)
next
  case (call_shutdown s)
  then show ?case by (simp add: shutdown_def)
next
  case (call_addWorker s worker ok s')
  then show ?case using addWorker_same [of s worker ok s'] by simp
next
  case (call_submitTask s now ty pr)
  show ?case
  proof (cases "getTaskId (Task_new now ty pr) = i")
    case True
    then show ?thesis by blast
  next
    case False
    with call_submitTask show ?thesis by (cases ty) (simp_all add: submitTask_def Let_def)
  qed
next
  case (call_cancelTask s taskId)
  then show ?case
    by (auto simp: cancelTask_def setStatus_def Let_def split: option.splits)
next
  case (call_busy s w b)
  then show ?case by simp
qed

lemma frame_absent: "frame s s' \<Longrightarrow> tasks s i = None \<Longrightarrow> tasks s' i = None"
  unfolding frame_def by (metis option.distinct(1))

lemma step_absent:
  assumes "step \<sigma> \<sigma>'" "tasks (scheduler \<sigma>) i = None"
  shows "tasks (scheduler \<sigma>') i = None \<or> submits_id i \<sigma> \<sigma>'"
  using assms
proof (induction rule: step.induct)
  case (step_call \<sigma> s')
  from call_step_absent [OF step_call(1) step_call(2)] show ?case
    by (auto simp: submits_id_def)
next
  case (step_take_none \<sigma> s')
  from processTaskQueues_take_frame [OF step_take_none(2)] step_take_none(3)
  show ?case by (auto dest: frame_absent)
next
  case (step_take \<sigma> p ty s')
  from processTaskQueues_take_frame [OF step_take(2)] step_take(3)
  show ?case by (auto dest: frame_absent)
next
  case (step_serve p ty \<sigma> s')
  from processTaskQueues_serve_frame_untouched [OF step_serve(2), THEN conjunct1] step_serve(3)
  show ?case by (auto dest: frame_absent)
next
  case (step_image_take \<sigma> p q)
  then show ?case by simp
next
  case (step_image_serve p \<sigma> s')
  from processImageGenerationQueue_serve_frame_untouched [OF step_image_serve(2), THEN conjunct1]
    step_image_serve(3)
  show ?case by (auto dest: frame_absent)
qed

lemma steps_absent:
  assumes "(step_without i)\<^sup>*\<^sup>* \<sigma> \<sigma>'" "tasks (scheduler \<sigma>) i = None"
  shows "tasks (scheduler \<sigma>') i = None"
  using assms
proof (induction rule: rtranclp_induct)
  case base
  then show ?case by simp
next
  case (step y z)
  then show ?case using step_absent [of y z i] by (auto simp: step_without_def)
qed

lemma submitTask_totalTasks: "totalTasks (snd (submitTask s now ty pr)) = totalTasks s + 1"
  by (cases ty) (simp_all add: submitTask_def Let_def)

lemma Async_submitTask_tasks: "a_tasks (snd (Async_submitTask s (Some t))) (a_id t) = Some t"
  by (cases "a_type t") (simp_all add: Async_submitTask_def Let_def)

lemma S5_later: "(step_without task_1000)\<^sup>*\<^sup>* (idle_threads S5_cancelled) (idle_threads S5_discarded)"
proof -
  have "processTaskQueues_take S5_cancelled = (None, S5_discarded)"
    by (simp add: S5_discarded_def S5_cancelled_def processTaskQueues_take_def front_task_def
          Task_new_def)
  moreover have "running S5_cancelled" by (simp add: S5_cancelled_def)
  ultimately have st: "step (idle_threads S5_cancelled) (idle_threads S5_discarded)"
    using step_take_none [of "idle_threads S5_cancelled" S5_discarded]
    by (simp add: idle_threads_def)
  have "\<not> submits_id task_1000 (idle_threads S5_cancelled) (idle_threads S5_discarded)"
  proof
    assume "submits_id task_1000 (idle_threads S5_cancelled) (idle_threads S5_discarded)"
    then obtain now ty pr where "S5_discarded = snd (submitTask S5_cancelled now ty pr)"
      by (auto simp: submits_id_def idle_threads_def)
    then have "totalTasks S5_discarded = totalTasks S5_cancelled + 1"
      using submitTask_totalTasks [of S5_cancelled now ty pr] by metis
    then show False by (simp add: S5_discarded_def)
  qed
  with st show ?thesis by (simp add: step_without_def r_into_rtranclp)
qed

lemma one_llm_task_later: "(Async_step_without 0)\<^sup>*\<^sup>* one_llm_task_cancelled one_llm_task_next"
proof -
  have st: "Async_step one_llm_task_cancelled one_llm_task_next"
    unfolding one_llm_task_next_def by (rule Async_step_submitTask)
  have n: "a_tasks one_llm_task_next 0 = None"
    by (simp add: one_llm_task_next_def one_llm_task_cancelled_def one_llm_task_def
          Async_submitTask_def Async_cancelTask_def AsyncScheduler_ctor_def)
  have "\<not> Async_submits_id 0 one_llm_task_cancelled one_llm_task_next"
  proof
    assume "Async_submits_id 0 one_llm_task_cancelled one_llm_task_next"
    then obtain t where "a_id t = 0"
        "one_llm_task_next = snd (Async_submitTask one_llm_task_cancelled (Some t))"
      by (auto simp: Async_submits_id_def)
    then have "a_tasks one_llm_task_next 0 = Some t"
      using Async_submitTask_tasks [of one_llm_task_cancelled t] by simp
    with n show False by simp
  qed
  with st show ?thesis by (simp add: Async_step_without_def r_into_rtranclp)
qed

text \<open>
  C4, amended. \<open>cancelTask\<close> of \<open>ResourceIsolationScheduler\<close> returns a \<open>bool\<close>. On a
  task that is \<open>RUNNING\<close> it returns false and changes nothing, and so it does for every
  id that is not in \<open>tasks_\<close> or whose task is not \<open>PENDING\<close>; whenever it returns false
  it changes nothing. After a call that returned true, every later \<open>cancelTask\<close> of the
  same id, whatever the scheduler and its threads have done in between, returns false
  and changes nothing, as long as no task of that id has been submitted again. The last
  holds for \<open>AsyncScheduler::cancelTask\<close> as well.
\<close>

theorem cancelTask_refuses_running_and_repeats:
  "(tasks s taskId = Some p \<and> getStatus (task_store s p) = RUNNING \<longrightarrow>
       cancelTask s taskId = (False, s))
   \<and> ((\<forall>q. tasks s taskId = Some q \<longrightarrow> getStatus (task_store s q) \<noteq> PENDING) \<longrightarrow>
       cancelTask s taskId = (False, s))
   \<and> (\<not> fst (cancelTask s taskId) \<longrightarrow> snd (cancelTask s taskId) = s)
   \<and> (cancelTask (scheduler \<sigma>) taskId = (True, s') \<longrightarrow>
       (\<forall>\<sigma>''. (step_without taskId)\<^sup>*\<^sup>* (\<sigma>\<lparr>scheduler := s'\<rparr>) \<sigma>'' \<longrightarrow>
          cancelTask (scheduler \<sigma>'') taskId = (False, scheduler \<sigma>'')))
   \<and> (Async_cancelTask a i = (True, a') \<longrightarrow>
       (\<forall>a''. (Async_step_without i)\<^sup>*\<^sup>* a' a'' \<longrightarrow> Async_cancelTask a'' i = (False, a'')))"
proof (intro conjI impI allI)
  assume "tasks s taskId = Some p \<and> getStatus (task_store s p) = RUNNING"
  then show "cancelTask s taskId = (False, s)" by (simp add: cancelTask_def)
next
  assume "\<forall>q. tasks s taskId = Some q \<longrightarrow> getStatus (task_store s q) \<noteq> PENDING"
  then show "cancelTask s taskId = (False, s)" by (rule cancelTask_not_PENDING)
next
  assume "\<not> fst (cancelTask s taskId)"
  then show "snd (cancelTask s taskId) = s" by (rule cancelTask_False)
next
  fix \<sigma>''
  assume c: "cancelTask (scheduler \<sigma>) taskId = (True, s')"
    and st: "(step_without taskId)\<^sup>*\<^sup>* (\<sigma>\<lparr>scheduler := s'\<rparr>) \<sigma>''"
  from c have "tasks (scheduler (\<sigma>\<lparr>scheduler := s'\<rparr>)) taskId = None"
    by (simp add: cancelTask_True_tasks)
  from steps_absent [OF st this] show "cancelTask (scheduler \<sigma>'') taskId = (False, scheduler \<sigma>'')"
    by (simp add: cancelTask_not_PENDING)
next
  fix a''
  assume c: "Async_cancelTask a i = (True, a')" and st: "(Async_step_without i)\<^sup>*\<^sup>* a' a''"
  from c have "a_tasks a' i = None" by (rule Async_cancelTask_True_tasks)
  from Async_steps_absent [OF st this] show "Async_cancelTask a'' i = (False, a'')"
    by (rule Async_cancelTask_absent)
qed

theorem cancelTask_refuses_running_and_repeats_witness:
  "tasks llm_task_running (''task_'' @ to_string 1000) = Some 0
   \<and> getStatus (task_store llm_task_running 0) = RUNNING
   \<and> cancelTask llm_task_running (''task_'' @ to_string 1000) = (False, llm_task_running)
   \<and> tasks fresh_scheduler ''task_7'' = None
   \<and> cancelTask fresh_scheduler ''task_7'' = (False, fresh_scheduler)
   \<and> \<not> fst (cancelTask fresh_scheduler ''task_7'')
   \<and> snd (cancelTask fresh_scheduler ''task_7'') = fresh_scheduler
   \<and> cancelTask S5_submitted task_1000 = (True, S5_cancelled)
   \<and> (step_without task_1000)\<^sup>*\<^sup>* (idle_threads S5_cancelled) (idle_threads S5_discarded)
   \<and> cancelTask S5_cancelled task_1000 = (False, S5_cancelled)
   \<and> cancelTask S5_discarded task_1000 = (False, S5_discarded)
   \<and> Async_cancelTask one_llm_task 0 = (True, one_llm_task_cancelled)
   \<and> (Async_step_without 0)\<^sup>*\<^sup>* one_llm_task_cancelled one_llm_task_next
   \<and> Async_cancelTask one_llm_task_cancelled 0 = (False, one_llm_task_cancelled)
   \<and> Async_cancelTask one_llm_task_next 0 = (False, one_llm_task_next)"
proof -
  let ?i = "''task_'' @ to_string 1000"
  have r: "tasks llm_task_running ?i = Some 0 \<and> getStatus (task_store llm_task_running 0) = RUNNING"
    by (simp add: llm_task_running_eq)
  have n0: "tasks fresh_scheduler ''task_7'' = None"
    by (simp add: fresh_scheduler_def ResourceIsolationScheduler_ctor_def)
  then have n: "\<forall>q. tasks fresh_scheduler ''task_7'' = Some q \<longrightarrow>
          getStatus (task_store fresh_scheduler q) \<noteq> PENDING"
    by simp
  have f: "\<not> fst (cancelTask fresh_scheduler ''task_7'')"
    by (simp add: fresh_scheduler_def ResourceIsolationScheduler_ctor_def cancelTask_def)
  have c: "cancelTask (scheduler (idle_threads S5_submitted)) task_1000 = (True, S5_cancelled)"
    using S5_cancelled_eq by (simp add: idle_threads_def)
  have i: "(idle_threads S5_submitted)\<lparr>scheduler := S5_cancelled\<rparr> = idle_threads S5_cancelled"
    by (simp add: idle_threads_def)
  have "fst (Async_cancelTask one_llm_task 0)"
    by (simp add: one_llm_task_def Async_submitTask_def AsyncScheduler_ctor_def Async_cancelTask_def)
  then have a: "Async_cancelTask one_llm_task 0 = (True, one_llm_task_cancelled)"
    by (simp add: one_llm_task_cancelled_def prod_eq_iff)
  note t1 = cancelTask_refuses_running_and_repeats
              [of llm_task_running ?i 0 "idle_threads S5_submitted" S5_cancelled
                  one_llm_task 0 one_llm_task_cancelled]
  note t2 = cancelTask_refuses_running_and_repeats
              [of fresh_scheduler "''task_7''" 0 "idle_threads S5_submitted" S5_cancelled
                  one_llm_task 0 one_llm_task_cancelled]
  note t3 = cancelTask_refuses_running_and_repeats
              [of fresh_scheduler task_1000 0 "idle_threads S5_submitted" S5_cancelled
                  one_llm_task 0 one_llm_task_cancelled]
  from t1 r have 1: "cancelTask llm_task_running ?i = (False, llm_task_running)" by blast
  from t2 n have 2: "cancelTask fresh_scheduler ''task_7'' = (False, fresh_scheduler)" by blast
  from t2 f have 3: "snd (cancelTask fresh_scheduler ''task_7'') = fresh_scheduler" by blast
  from t3 c have l: "\<forall>\<sigma>''. (step_without task_1000)\<^sup>*\<^sup>* (idle_threads S5_cancelled) \<sigma>'' \<longrightarrow>
          cancelTask (scheduler \<sigma>'') task_1000 = (False, scheduler \<sigma>'')"
    unfolding i by blast
  from l have 4: "cancelTask S5_cancelled task_1000 = (False, S5_cancelled)"
    using rtranclp.rtrancl_refl [of "step_without task_1000" "idle_threads S5_cancelled"]
    by (auto simp: idle_threads_def)
  from l S5_later have 5: "cancelTask S5_discarded task_1000 = (False, S5_discarded)"
    by (auto simp: idle_threads_def)
  from t3 a have m: "\<forall>a''. (Async_step_without 0)\<^sup>*\<^sup>* one_llm_task_cancelled a'' \<longrightarrow>
          Async_cancelTask a'' 0 = (False, a'')"
    by blast
  from m have 6: "Async_cancelTask one_llm_task_cancelled 0 = (False, one_llm_task_cancelled)"
    by blast
  from m one_llm_task_later have 7: "Async_cancelTask one_llm_task_next 0 = (False, one_llm_task_next)"
    by blast
  from r n0 f S5_cancelled_eq S5_later a one_llm_task_later 1 2 3 4 5 6 7 show ?thesis by blast
qed

subsection \<open>Worker selection\<close>

lemma find_SomeD: "find P xs = Some x \<Longrightarrow> P x \<and> x \<in> set xs"
  by (auto simp: find_Some_iff)

text \<open>
  C5. In every state that a scheduler and its threads reach from the constructor, the
  worker that \<open>selectWorker\<close> returns for a type other than \<open>LLM_INFERENCE\<close> is not
  \<open>llmWorker_\<close>, and neither is the worker that \<open>processImageGenerationQueue\<close> chooses,
  even when \<open>llmWorker_\<close> is idle and can handle the type.
\<close>

theorem lm_exclusive_worker_only_for_llm:
  "reachable \<sigma> \<Longrightarrow>
     (ty \<noteq> LLM_INFERENCE \<and> selectWorker (scheduler \<sigma>) ty = Some w \<longrightarrow>
        llmWorker (scheduler \<sigma>) \<noteq> Some w)
     \<and> (image_worker (scheduler \<sigma>) = Some w \<longrightarrow> llmWorker (scheduler \<sigma>) \<noteq> Some w)"
proof (intro conjI impI)
  let ?s = "scheduler \<sigma>"
  assume r: "reachable \<sigma>" and a: "ty \<noteq> LLM_INFERENCE \<and> selectWorker ?s ty = Some w"
  from r have ok: "registry_ok ?s" by (simp add: reachable_invariants)
  show "llmWorker ?s \<noteq> Some w"
  proof (cases "ty = TTS_SYNTHESIS")
    case True
    with a have "find (idle_worker ?s ty) (cpuWorkers ?s) = Some w"
      by (simp add: selectWorker_def Let_def split: option.splits)
    then have "w \<in> set (cpuWorkers ?s)" by (simp add: find_SomeD)
    with ok show ?thesis by (auto simp: registry_ok_def)
  next
    case False
    with a have "find (\<lambda>w. Some w \<noteq> llmWorker ?s \<and> idle_worker ?s ty w) (gpuWorkers ?s) = Some w"
      by (cases "llmWorker ?s") (auto simp: selectWorker_def Let_def)
    from find_SomeD [OF this] show ?thesis by auto
  qed
next
  let ?s = "scheduler \<sigma>"
  assume "image_worker ?s = Some w"
  then have "find (\<lambda>w. Some w \<noteq> llmWorker ?s \<and> idle_worker ?s IMAGE_GENERATION w) (gpuWorkers ?s) = Some w"
    by (simp add: image_worker_def)
  from find_SomeD [OF this] show "llmWorker ?s \<noteq> Some w" by auto
qed

theorem lm_exclusive_worker_only_for_llm_witness:
  "reachable (idle_threads (S4_registry 3))
   \<and> llmWorker (S4_registry 3) = Some 0
   \<and> idle_worker (S4_registry 3) IMAGE_GENERATION 0
   \<and> IMAGE_GENERATION \<noteq> LLM_INFERENCE
   \<and> selectWorker (S4_registry 3) IMAGE_GENERATION = Some 1
   \<and> image_worker (S4_registry 3) = Some 1
   \<and> selectWorker (S4_registry 3) TTS_SYNTHESIS = Some 2
   \<and> llmWorker (S4_registry 3) \<noteq> Some 1 \<and> llmWorker (S4_registry 3) \<noteq> Some 2"
proof -
  have a: "llmWorker (S4_registry 3) = Some 0 \<and> idle_worker (S4_registry 3) IMAGE_GENERATION 0"
    by (simp add: S4_registry_def idle_worker_def S4_workers_def lm_exclusive_worker_def)
  have b: "selectWorker (S4_registry 3) IMAGE_GENERATION = Some 1"
      "image_worker (S4_registry 3) = Some 1"
      "selectWorker (S4_registry 3) TTS_SYNTHESIS = Some 2"
    by (simp_all add: S4_registry_def selectWorker_def image_worker_def idle_worker_def
          S4_workers_def lm_exclusive_worker_def general_worker_def tts_worker_def)
  have s: "scheduler (idle_threads (S4_registry 3)) = S4_registry 3"
    by (simp add: idle_threads_def)
  from lm_exclusive_worker_only_for_llm [OF S4_registry_reachable, of IMAGE_GENERATION 1] b
  have c: "llmWorker (S4_registry 3) \<noteq> Some 1" unfolding s by simp
  from lm_exclusive_worker_only_for_llm [OF S4_registry_reachable, of TTS_SYNTHESIS 2] b
  have d: "llmWorker (S4_registry 3) \<noteq> Some 2" unfolding s by simp
  from S4_registry_reachable a b c d show ?thesis by simp
qed

subsection \<open>Shutdown\<close>

text \<open>
  C6, as the specification states it, fails: a task that waits in the LLM queue when
  \<open>shutdown\<close> runs is still \<open>PENDING\<close> afterwards, and \<open>shutdown\<close> has made no call on
  it.
\<close>

theorem shutdown_leaves_queued_task_pending_counterexample:
  "initialized queued_at_shutdown
   \<and> llmTaskQueue queued_at_shutdown = [0]
   \<and> getStatus (task_store queued_at_shutdown 0) = PENDING
   \<and> getStatus (task_store (shutdown queued_at_shutdown) 0) = PENDING
   \<and> calls (shutdown queued_at_shutdown) = []"
  by (simp add: queued_at_shutdown_def fresh_scheduler_def ResourceIsolationScheduler_ctor_def
        initialize_def submitTask_def shutdown_def Let_def Task_new_def)

text \<open>
  C6, amended. \<open>shutdown\<close> of an initialised scheduler empties \<open>tasks_\<close> and the three
  queues and leaves \<open>running_\<close> and \<open>initialized_\<close> false, so no dispatch pass follows;
  the tasks that were waiting are dropped as they are, with no change of status and no
  call but \<open>shutdown()\<close> on each worker. \<open>AsyncScheduler::stop\<close> on a running
  scheduler likewise empties \<open>tasks_\<close> and the queues and clears \<open>running_\<close>, and calls
  nothing on the tasks.
\<close>

theorem shutdown_discards_queued_tasks:
  "(initialized s \<longrightarrow>
      tasks (shutdown s) = Map.empty
      \<and> llmTaskQueue (shutdown s) = [] \<and> ttsTaskQueue (shutdown s) = []
      \<and> imageTaskQueue (shutdown s) = []
      \<and> \<not> running (shutdown s) \<and> \<not> initialized (shutdown s)
      \<and> task_store (shutdown s) = task_store s
      \<and> calls (shutdown s) = calls s @ map Call_shutdown (workers s))
   \<and> (a_running a \<longrightarrow>
      a_tasks (Async_stop a) = Map.empty
      \<and> llm_queue (Async_stop a) = [] \<and> tts_queue (Async_stop a) = []
      \<and> image_queue (Async_stop a) = []
      \<and> \<not> a_running (Async_stop a)
      \<and> execute_log (Async_stop a) = execute_log a \<and> notify_log (Async_stop a) = notify_log a)"
  by (simp add: shutdown_def Async_stop_def)

theorem shutdown_discards_queued_tasks_witness:
  "initialized queued_at_shutdown
   \<and> tasks queued_at_shutdown \<noteq> Map.empty
   \<and> tasks (shutdown queued_at_shutdown) = Map.empty
   \<and> llmTaskQueue (shutdown queued_at_shutdown) = []
   \<and> \<not> running (shutdown queued_at_shutdown)
   \<and> a_running (one_llm_task\<lparr>a_running := True\<rparr>)
   \<and> a_tasks (Async_stop (one_llm_task\<lparr>a_running := True\<rparr>)) = Map.empty
   \<and> llm_queue (Async_stop (one_llm_task\<lparr>a_running := True\<rparr>)) = []"
proof -
  have i: "initialized queued_at_shutdown"
    by (simp add: queued_at_shutdown_def fresh_scheduler_def ResourceIsolationScheduler_ctor_def
          initialize_def submitTask_def Let_def)
  have "tasks queued_at_shutdown (''task_'' @ to_string 1000) = Some 0"
    by (simp add: queued_at_shutdown_def fresh_scheduler_def ResourceIsolationScheduler_ctor_def
          initialize_def submitTask_def Let_def Task_new_def)
  then have n: "tasks queued_at_shutdown \<noteq> Map.empty" by auto
  have r: "a_running (one_llm_task\<lparr>a_running := True\<rparr>)" by simp
  from shutdown_discards_queued_tasks [of queued_at_shutdown "one_llm_task\<lparr>a_running := True\<rparr>"] i r n
  show ?thesis by blast
qed

subsection \<open>Task ids\<close>

text \<open>
  C7 on \<open>ResourceIsolationScheduler\<close>: the id of a task is made from the clock
  reading alone, so two tasks constructed at the same reading have the same id. Submitted
  one after the other, both wait in the queue, and \<open>tasks_\<close> knows only the second.
\<close>

theorem equal_clock_readings_give_equal_task_ids:
  "getTaskId (Task_new now ty pr) = getTaskId (Task_new now ty' pr')
   \<and> ttsTaskQueue two_tasks_same_clock = [0, 1]
   \<and> getTaskId (task_store two_tasks_same_clock 0) = ''task_1000''
   \<and> getTaskId (task_store two_tasks_same_clock 1) = ''task_1000''
   \<and> tasks two_tasks_same_clock = [''task_1000'' \<mapsto> 1]"
  by (simp add: two_tasks_same_clock_def fresh_scheduler_def ResourceIsolationScheduler_ctor_def
        submitTask_def Let_def Task_new_def to_string_def to_string_nat.simps)

subsection \<open>Exceptions from workers\<close>

text \<open>
  C8, as the specification states it, fails on scenario S6: the worker throws
  \<open>"oom"\<close>, the task becomes \<open>FAILED\<close>, and the message is not kept: \<open>exception_\<close> of
  the task is still null.
\<close>

theorem worker_error_message_not_recorded_counterexample:
  "processTask (worker_store S6_scheduler 0) (task_store S6_scheduler 0)
      = (task_store S6_scheduler 0, Throws_std ''oom'')
   \<and> processTaskQueues S6_scheduler = Inr S6_after
   \<and> getStatus (task_store S6_after 0) = FAILED
   \<and> exception_ptr (task_store S6_after 0) = None
   \<and> exception_ptr (task_store S6_after 0) \<noteq> Some ''oom''"
  by (simp add: S6_step) (simp add: S6_after_def S6_scheduler_eq llm_worker_oom_def Task_new_def)

text \<open>
  C8, amended. When the worker chosen for a task throws an exception derived from
  \<open>std::exception\<close>, the dispatch pass (\<open>processTaskQueues\<close> or
  \<open>processImageGenerationQueue\<close>) returns normally: the handler sets the status of the
  task to \<open>FAILED\<close> and adds one to \<open>failedTasks_\<close>, the task leaves \<open>tasks_\<close>, and
  \<open>running_\<close> is unchanged, so the loop of the thread goes on. The message is printed
  and not stored: apart from the status, the task is as the worker left it.
\<close>

theorem worker_exception_marks_task_failed:
  "(front_task s = Some (p, ty, s1)
      \<and> getStatus (task_store s p) \<noteq> CANCELLED
      \<and> selectWorker s1 ty = Some w
      \<and> processTask (worker_store s w) (task_store s p) = (t', Throws_std msg)
    \<longrightarrow> (\<exists>s'. processTaskQueues s = Inr s'
           \<and> task_store s' p = t'\<lparr>getStatus := FAILED\<rparr>
           \<and> failedTasks s' = failedTasks s + 1
           \<and> tasks s' = (tasks s)(getTaskId t' := None)
           \<and> running s' = running s
           \<and> calls s' = calls s @ [Call_processTask w p, Call_setStatus p FAILED]))
   \<and> (imageTaskQueue s = p # q
      \<and> tasks s (getTaskId (task_store s p)) \<noteq> None
      \<and> getStatus (task_store s p) \<noteq> CANCELLED
      \<and> image_worker (s\<lparr>imageTaskQueue := q\<rparr>) = Some w
      \<and> processTask (worker_store s w) (task_store s p) = (t', Throws_std msg)
    \<longrightarrow> (\<exists>s'. processImageGenerationQueue s = Inr s'
           \<and> task_store s' p = t'\<lparr>getStatus := FAILED\<rparr>
           \<and> failedTasks s' = failedTasks s + 1
           \<and> tasks s' = (tasks s)(getTaskId t' := None)
           \<and> running s' = running s
           \<and> calls s' = calls s @ [Call_processTask w p, Call_setStatus p FAILED]))"
proof (intro conjI impI)
  assume a: "front_task s = Some (p, ty, s1)
      \<and> getStatus (task_store s p) \<noteq> CANCELLED
      \<and> selectWorker s1 ty = Some w
      \<and> processTask (worker_store s w) (task_store s p) = (t', Throws_std msg)"
  note st = front_task_stores [of s p ty s1]
  from a st have "processTask (worker_store s1 w) (task_store s1 p) = (t', Throws_std msg)" by simp
  from run_worker_Throws_std [OF this] obtain s2 where s2: "run_worker s1 w p = Inr s2"
      "task_store s2 = (task_store s1)(p := t'\<lparr>getStatus := FAILED\<rparr>)"
      "failedTasks s2 = failedTasks s1 + 1" "running s2 = running s1" "tasks s2 = tasks s1"
      "calls s2 = calls s1 @ [Call_processTask w p, Call_setStatus p FAILED]"
    by blast
  have e: "erase_finished s2 p = s2\<lparr>tasks := (tasks s2)(getTaskId (t'\<lparr>getStatus := FAILED\<rparr>) := None)\<rparr>"
    by (rule erase_finished_FAILED) (simp_all add: s2)
  have "processTaskQueues s = Inr (erase_finished s2 p)"
    using a st s2(1)
    by (simp add: processTaskQueues_def processTaskQueues_take_def processTaskQueues_serve_def)
  then show "\<exists>s'. processTaskQueues s = Inr s'
           \<and> task_store s' p = t'\<lparr>getStatus := FAILED\<rparr>
           \<and> failedTasks s' = failedTasks s + 1
           \<and> tasks s' = (tasks s)(getTaskId t' := None)
           \<and> running s' = running s
           \<and> calls s' = calls s @ [Call_processTask w p, Call_setStatus p FAILED]"
    using a st s2 e by simp
next
  assume a: "imageTaskQueue s = p # q
      \<and> tasks s (getTaskId (task_store s p)) \<noteq> None
      \<and> getStatus (task_store s p) \<noteq> CANCELLED
      \<and> image_worker (s\<lparr>imageTaskQueue := q\<rparr>) = Some w
      \<and> processTask (worker_store s w) (task_store s p) = (t', Throws_std msg)"
  let ?s1 = "s\<lparr>imageTaskQueue := q\<rparr>"
  from a have "processTask (worker_store ?s1 w) (task_store ?s1 p) = (t', Throws_std msg)" by simp
  from run_worker_Throws_std [OF this] obtain s2 where s2: "run_worker ?s1 w p = Inr s2"
      "task_store s2 = (task_store ?s1)(p := t'\<lparr>getStatus := FAILED\<rparr>)"
      "failedTasks s2 = failedTasks ?s1 + 1" "running s2 = running ?s1" "tasks s2 = tasks ?s1"
      "calls s2 = calls ?s1 @ [Call_processTask w p, Call_setStatus p FAILED]"
    by blast
  have e: "erase_finished s2 p = s2\<lparr>tasks := (tasks s2)(getTaskId (t'\<lparr>getStatus := FAILED\<rparr>) := None)\<rparr>"
    by (rule erase_finished_FAILED) (simp_all add: s2)
  have "processImageGenerationQueue s = Inr (erase_finished s2 p)"
    using a s2(1)
    by (auto simp: processImageGenerationQueue_def processImageGenerationQueue_serve_def)
  then show "\<exists>s'. processImageGenerationQueue s = Inr s'
           \<and> task_store s' p = t'\<lparr>getStatus := FAILED\<rparr>
           \<and> failedTasks s' = failedTasks s + 1
           \<and> tasks s' = (tasks s)(getTaskId t' := None)
           \<and> running s' = running s
           \<and> calls s' = calls s @ [Call_processTask w p, Call_setStatus p FAILED]"
    using a s2 e by simp
qed

theorem worker_exception_marks_task_failed_witness:
  "front_task S6_scheduler = Some (0, LLM_INFERENCE, S6_scheduler\<lparr>llmTaskQueue := []\<rparr>)
   \<and> getStatus (task_store S6_scheduler 0) \<noteq> CANCELLED
   \<and> selectWorker (S6_scheduler\<lparr>llmTaskQueue := []\<rparr>) LLM_INFERENCE = Some 0
   \<and> processTask (worker_store S6_scheduler 0) (task_store S6_scheduler 0)
        = (Task_new 1000 LLM_INFERENCE MEDIUM, Throws_std ''oom'')
   \<and> (\<exists>s'. processTaskQueues S6_scheduler = Inr s'
          \<and> task_store s' 0 = (Task_new 1000 LLM_INFERENCE MEDIUM)\<lparr>getStatus := FAILED\<rparr>
          \<and> failedTasks s' = 1 \<and> running s')
   \<and> imageTaskQueue image_task_queued = [0]
   \<and> tasks image_task_queued (getTaskId (task_store image_task_queued 0)) \<noteq> None
   \<and> getStatus (task_store image_task_queued 0) \<noteq> CANCELLED
   \<and> image_worker (image_task_queued\<lparr>imageTaskQueue := []\<rparr>) = Some 0
   \<and> processTask (worker_store image_task_queued 0) (task_store image_task_queued 0)
        = (Task_new 1000 IMAGE_GENERATION LOW, Throws_std ''oom'')
   \<and> (\<exists>s'. processImageGenerationQueue image_task_queued = Inr s'
          \<and> task_store s' 0 = (Task_new 1000 IMAGE_GENERATION LOW)\<lparr>getStatus := FAILED\<rparr>
          \<and> failedTasks s' = 1 \<and> running s')"
proof -
  have a: "front_task S6_scheduler = Some (0, LLM_INFERENCE, S6_scheduler\<lparr>llmTaskQueue := []\<rparr>)
     \<and> getStatus (task_store S6_scheduler 0) \<noteq> CANCELLED
     \<and> selectWorker (S6_scheduler\<lparr>llmTaskQueue := []\<rparr>) LLM_INFERENCE = Some 0
     \<and> processTask (worker_store S6_scheduler 0) (task_store S6_scheduler 0)
          = (Task_new 1000 LLM_INFERENCE MEDIUM, Throws_std ''oom'')"
    by (simp add: S6_scheduler_eq front_task_def selectWorker_def idle_worker_def
          llm_worker_oom_def Task_new_def)
  have b: "imageTaskQueue image_task_queued = [0]
     \<and> tasks image_task_queued (getTaskId (task_store image_task_queued 0)) \<noteq> None
     \<and> getStatus (task_store image_task_queued 0) \<noteq> CANCELLED
     \<and> image_worker (image_task_queued\<lparr>imageTaskQueue := []\<rparr>) = Some 0
     \<and> processTask (worker_store image_task_queued 0) (task_store image_task_queued 0)
          = (Task_new 1000 IMAGE_GENERATION LOW, Throws_std ''oom'')"
    by (simp add: image_task_queued_eq image_worker_def idle_worker_def
          image_worker_oom_def Task_new_def)
  have f: "failedTasks S6_scheduler = 0" "running S6_scheduler"
      "failedTasks image_task_queued = 0" "running image_task_queued"
    by (simp_all add: S6_scheduler_eq image_task_queued_eq)
  from worker_exception_marks_task_failed
         [of S6_scheduler 0 LLM_INFERENCE "S6_scheduler\<lparr>llmTaskQueue := []\<rparr>" 0
             "Task_new 1000 LLM_INFERENCE MEDIUM" "''oom''" "[]"] a f
  have c: "\<exists>s'. processTaskQueues S6_scheduler = Inr s'
          \<and> task_store s' 0 = (Task_new 1000 LLM_INFERENCE MEDIUM)\<lparr>getStatus := FAILED\<rparr>
          \<and> failedTasks s' = 1 \<and> running s'"
    by auto
  from worker_exception_marks_task_failed
         [of image_task_queued 0 LLM_INFERENCE image_task_queued 0
             "Task_new 1000 IMAGE_GENERATION LOW" "''oom''" "[]"] b f
  have d: "\<exists>s'. processImageGenerationQueue image_task_queued = Inr s'
          \<and> task_store s' 0 = (Task_new 1000 IMAGE_GENERATION LOW)\<lparr>getStatus := FAILED\<rparr>
          \<and> failedTasks s' = 1 \<and> running s'"
    by auto
  from a b c d show ?thesis by blast
qed

end
